theory Spec2Isabelle
  imports Complex_Main "HOL-Library.AList"
begin

section \<open>Data model\<close>

text \<open>
  The plugin is TypeScript. Its numbers are modelled as follows: clock readings
  (\<^verbatim>\<open>Date.now()\<close>) and the millisecond settings are \<open>int\<close>; line numbers, particle
  counts and timer handles are \<open>nat\<close>; volumes and pixel coordinates are \<open>real\<close>
  (finite numbers, no NaN). A coordinate object \<^verbatim>\<open>{ x, y }\<close> is a pair \<open>(x, y)\<close>; a value
  that may be \<^verbatim>\<open>null\<close> or \<^verbatim>\<open>undefined\<close> is an \<open>option\<close>. A JavaScript \<^verbatim>\<open>Map\<close> is an
  association list with distinct keys in insertion order: \<open>map_of\<close> is \<^verbatim>\<open>get\<close>,
  \<open>AList.update\<close> is \<^verbatim>\<open>set\<close>, \<open>AList.delete\<close> is \<^verbatim>\<open>delete\<close>, \<open>length\<close> is \<^verbatim>\<open>size\<close>.
  A \<^verbatim>\<open>TFile\<close> is identified by its path.
\<close>

type_synonym coords = "real \<times> real"

datatype intensity = light | medium | heavy

record RewardSettings =
  enableSound :: bool
  enableConfetti :: bool
  globalMute :: bool
  disableConfetti :: bool
  soundVolume :: real
  confettiDuration :: int
  mergeWindowMs :: int
  throttleMs :: int
  undoWindowMs :: int

definition DEFAULT_SETTINGS :: RewardSettings where
  "DEFAULT_SETTINGS =
     \<lparr>enableSound = True, enableConfetti = True, globalMute = False, disableConfetti = False,
      soundVolume = 3 / 10, confettiDuration = 800, mergeWindowMs = 300, throttleMs = 250,
      undoWindowMs = 1000\<rparr>"

record TaskEvent =
  file_path :: string
  line :: nat
  checked :: bool
  timestamp :: int
  coords :: "coords option"

text \<open>The confetti half of a \<^verbatim>\<open>FeedbackProfile\<close>, and the burst configuration that extends it
  with the optional origin.\<close>

record ConfettiProfile =
  intensity :: intensity
  particleCount :: nat
  duration :: int

record ConfettiBurstConfig = ConfettiProfile +
  origin :: "coords option"

text \<open>The sound half of a profile is the pair (intensity, volume).\<close>

record FeedbackProfile =
  sound :: "(intensity \<times> real) option"
  confetti :: "ConfettiProfile option"

text \<open>A call made to one of the two output drivers.\<close>

datatype driver_call =
  PlayRewardSound intensity real
| Burst ConfettiBurstConfig

text \<open>
  The fields of \<^verbatim>\<open>TaskRewardPlugin\<close>, followed by what the plugin can observe or change
  in its host: the timeouts of \<^verbatim>\<open>window\<close> that are outstanding (handle and due time; the
  only callback the plugin ever registers is \<^verbatim>\<open>processMergedEvents\<close>), the last handle
  the window gave out, the times at which the window ran the timer callback, and the calls
  made to the output drivers so far.
\<close>

record TaskRewardPlugin =
  settings :: RewardSettings
  taskEventQueue :: "TaskEvent list"
  mergeTimer :: "nat option"
  lastFeedbackTime :: int
  undoProtection :: "(string \<times> int) list"
  taskStates :: "(string \<times> (nat \<times> bool) list) list"
  recentTaskCoordinates :: "(string \<times> (coords \<times> int)) list"
  window_timers :: "(nat \<times> int) list"
  window_last_handle :: nat
  window_fired :: "int list"
  driver_calls :: "driver_call list"

text \<open>The state right after \<^verbatim>\<open>onload\<close> with the given settings.\<close>

definition initial :: "RewardSettings \<Rightarrow> TaskRewardPlugin" where
  "initial st =
     \<lparr>settings = st, taskEventQueue = [], mergeTimer = None, lastFeedbackTime = 0,
      undoProtection = [], taskStates = [], recentTaskCoordinates = [],
      window_timers = [], window_last_handle = 0, window_fired = [], driver_calls = []\<rparr>"

subsection \<open>The host: active view, geometry, media query, driver failures\<close>

record CoordsRect =
  c_left :: real
  c_right :: real
  c_top :: real
  c_bottom :: real

record DOMRect =
  r_left :: real
  r_top :: real
  r_width :: real
  r_height :: real

text \<open>
  The CodeMirror editor of a view: whether \<^verbatim>\<open>cm.state\<close> exists, the number of lines of
  the document, the start and end offsets of a line (numbered from 1), and
  \<^verbatim>\<open>coordsAtPos\<close>.
\<close>

record EditorView =
  has_state :: bool
  doc_lines :: int
  line_from :: "int \<Rightarrow> nat"
  line_to :: "int \<Rightarrow> nat"
  coordsAtPos :: "nat \<Rightarrow> CoordsRect option"

text \<open>
  The active markdown view: its file, \<^verbatim>\<open>getMode()\<close>, the editor, and, when the preview
  container exists, the bounding box of the element with a given \<^verbatim>\<open>data-line\<close>.
\<close>

record MarkdownView =
  view_file :: string
  getMode :: "string option"
  cm :: "EditorView option"
  previewLine :: "(nat \<Rightarrow> DOMRect option) option"

record host_env =
  activeView :: "MarkdownView option"
  prefersReducedMotion :: bool
  driver_throws :: "driver_call \<Rightarrow> bool"

section \<open>Keys\<close>

text \<open>The template string \<^verbatim>\<open>`${file.path}:${line}`\<close>, the line number in decimal.\<close>

fun showNat :: "nat \<Rightarrow> string" where
  "showNat n =
     (if n < 10 then [''0123456789'' ! n]
      else showNat (n div 10) @ [''0123456789'' ! (n mod 10)])"

declare showNat.simps [simp del]

definition taskKey :: "string \<Rightarrow> nat \<Rightarrow> string" where
  "taskKey path l = path @ '':'' @ showNat l"

section \<open>Geometry lookup\<close>

datatype lookup = Found coords | NotFound | Threw

definition rectCentre :: "CoordsRect \<Rightarrow> coords" where
  "rectCentre c =
     (c_left c + (c_right c - c_left c) / 2, c_top c + (c_bottom c - c_top c) / 2)"

definition sourceCoords :: "EditorView \<Rightarrow> nat \<Rightarrow> lookup" where
  "sourceCoords ed l =
     (let lineNumber = min (max 0 (int l)) (doc_lines ed - 1) in
      if lineNumber + 1 < 1 \<or> doc_lines ed < lineNumber + 1 then Threw
      else
        (case coordsAtPos ed (line_from ed (lineNumber + 1)) of
           Some c \<Rightarrow> Found (rectCentre c)
         | None \<Rightarrow>
             (case coordsAtPos ed (line_to ed (lineNumber + 1)) of
                Some c \<Rightarrow> Found (rectCentre c)
              | None \<Rightarrow> NotFound)))"

definition previewCoords :: "MarkdownView \<Rightarrow> nat \<Rightarrow> coords option" where
  "previewCoords view l =
     (case previewLine view of
        None \<Rightarrow> None
      | Some querySelector \<Rightarrow>
          (case querySelector l of
             None \<Rightarrow> None
           | Some rect \<Rightarrow>
               Some (r_left rect + r_width rect / 2, r_top rect + r_height rect / 2)))"

definition sourceMode :: "string option \<Rightarrow> bool" where
  "sourceMode m =
     (case m of None \<Rightarrow> True
      | Some str \<Rightarrow> str = [] \<or> str = ''source'' \<or> str = ''source-both'')"

text \<open>
  \<^verbatim>\<open>computeTaskCoordinates\<close>. \<^verbatim>\<open>doc.line(n)\<close> raises outside \<open>1..lines\<close>; the
  \<^verbatim>\<open>try/catch\<close> turns that into \<^verbatim>\<open>null\<close>.
\<close>

definition computeTaskCoordinates :: "host_env \<Rightarrow> string \<Rightarrow> nat \<Rightarrow> coords option" where
  "computeTaskCoordinates env f l =
     (case activeView env of
        None \<Rightarrow> None
      | Some view \<Rightarrow>
          if view_file view \<noteq> f then None
          else
            (case (case cm view of
                     Some ed \<Rightarrow>
                       if sourceMode (getMode view) \<and> has_state ed then sourceCoords ed l
                       else NotFound
                   | None \<Rightarrow> NotFound) of
               Found p \<Rightarrow> Some p
             | Threw \<Rightarrow> None
             | NotFound \<Rightarrow> previewCoords view l))"

section \<open>The window's timers\<close>

text \<open>
  \<^verbatim>\<open>window.setTimeout\<close> returns a handle that is greater than zero and was not given out
  before; a negative delay counts as zero. \<^verbatim>\<open>window.clearTimeout\<close> forgets the timeout
  with that handle, if there is one.
\<close>

definition setTimeout :: "int \<Rightarrow> int \<Rightarrow> TaskRewardPlugin \<Rightarrow> nat \<times> TaskRewardPlugin" where
  "setTimeout now delay s =
     (let h = Suc (window_last_handle s) in
      (h, s\<lparr>window_timers := window_timers s @ [(h, now + max 0 delay)],
            window_last_handle := h\<rparr>))"

definition clearTimeout :: "nat \<Rightarrow> TaskRewardPlugin \<Rightarrow> TaskRewardPlugin" where
  "clearTimeout h s = s\<lparr>window_timers := AList.delete h (window_timers s)\<rparr>"

section \<open>Queueing a check event\<close>

text \<open>
  The click handler that \<^verbatim>\<open>onload\<close> registers on checkboxes ends by storing the centre of
  the checkbox under the task's key.
\<close>

definition recordTaskCoordinates ::
  "string \<Rightarrow> nat \<Rightarrow> coords \<Rightarrow> int \<Rightarrow> TaskRewardPlugin \<Rightarrow> TaskRewardPlugin" where
  "recordTaskCoordinates path l c now s =
     s\<lparr>recentTaskCoordinates :=
         AList.update (taskKey path l) (c, now) (recentTaskCoordinates s)\<rparr>"

text \<open>
  \<^verbatim>\<open>queueTaskEvent\<close>; \<open>now\<close> is what \<^verbatim>\<open>Date.now()\<close> returns in it, and the instant
  at which the timeout is set. The test \<^verbatim>\<open>if (this.mergeTimer)\<close> fails on \<^verbatim>\<open>null\<close> and on 0.
\<close>

definition cachedCoords :: "int \<Rightarrow> (coords \<times> int) option \<Rightarrow> coords option" where
  "cachedCoords now recent =
     (case recent of
        None \<Rightarrow> None
      | Some (c, ts) \<Rightarrow> if now - ts < 1500 then Some c else None)"

definition queueTaskEvent ::
  "host_env \<Rightarrow> int \<Rightarrow> TaskEvent \<Rightarrow> TaskRewardPlugin \<Rightarrow> TaskRewardPlugin" where
  "queueTaskEvent env now event s =
     (let key = taskKey (file_path event) (line event);
          cached = cachedCoords now (map_of (recentTaskCoordinates s) key);
          s1 = s\<lparr>recentTaskCoordinates := AList.delete key (recentTaskCoordinates s)\<rparr>;
          enrichedEvent =
            event\<lparr>coords :=
              (case cached of
                 Some c \<Rightarrow> Some c
               | None \<Rightarrow>
                   (case coords event of
                      Some c \<Rightarrow> Some c
                    | None \<Rightarrow> computeTaskCoordinates env (file_path event) (line event)))\<rparr>;
          s2 = s1\<lparr>taskEventQueue := taskEventQueue s1 @ [enrichedEvent]\<rparr>;
          s3 = (case mergeTimer s2 of
                  None \<Rightarrow> s2
                | Some h \<Rightarrow> if h \<noteq> 0 then clearTimeout h s2 else s2);
          (h', s4) = setTimeout now (mergeWindowMs (settings s3)) s3
      in s4\<lparr>mergeTimer := Some h'\<rparr>)"

section \<open>Task detection and undo protection\<close>

record ListItemCache =
  position_start_line :: nat
  task :: "string option"

record CachedMetadata =
  listItems :: "ListItemCache list option"

text \<open>\<^verbatim>\<open>trim()\<close> and \<^verbatim>\<open>toLowerCase()\<close> on ASCII text.\<close>

definition isSpace :: "char \<Rightarrow> bool" where
  "isSpace c = (c \<in> set [CHR '' '', CHR 0x09, CHR 0x0A, CHR 0x0B, CHR 0x0C, CHR 0x0D])"

definition trim :: "string \<Rightarrow> string" where
  "trim str = rev (dropWhile isSpace (rev (dropWhile isSpace str)))"

definition toLowerCase :: "string \<Rightarrow> string" where
  "toLowerCase str =
     map (\<lambda>c. case map_of (zip ''ABCDEFGHIJKLMNOPQRSTUVWXYZ'' ''abcdefghijklmnopqrstuvwxyz'') c of
                 None \<Rightarrow> c
               | Some d \<Rightarrow> d) str"

definition isChecked :: "ListItemCache \<Rightarrow> bool" where
  "isChecked t =
     (case task t of
        None \<Rightarrow> False
      | Some str \<Rightarrow>
          (let normalized = toLowerCase (trim str) in
           normalized = ''x'' \<or> normalized = ''check'' \<or> normalized = ''checked''))"

text \<open>
  \<^verbatim>\<open>cleanupUndoProtection\<close>: the loop visits the entries the map had when it started and
  deletes the keys whose time is too old.
\<close>

definition cleanupUndoProtection :: "int \<Rightarrow> TaskRewardPlugin \<Rightarrow> TaskRewardPlugin" where
  "cleanupUndoProtection now s =
     (if length (undoProtection s) \<le> 100 then s
      else
        s\<lparr>undoProtection :=
            fold (\<lambda>(key, time) m.
                    if now - time > undoWindowMs (settings s) * 2 then AList.delete key m else m)
                 (undoProtection s) (undoProtection s)\<rparr>)"

text \<open>
  The test \<^verbatim>\<open>lastUndoTime && now - lastUndoTime < undoWindowMs\<close>: a time of 0 counts as
  no time at all.
\<close>

definition undoProtected :: "int \<Rightarrow> string \<Rightarrow> TaskRewardPlugin \<Rightarrow> bool" where
  "undoProtected now key s =
     (case map_of (undoProtection s) key of
        None \<Rightarrow> False
      | Some lastUndoTime \<Rightarrow>
          lastUndoTime \<noteq> 0 \<and> now - lastUndoTime < undoWindowMs (settings s))"

text \<open>
  The body of the loop of \<^verbatim>\<open>handleTaskMetadataChange\<close> over the tasks of the file. \<open>now\<close>
  is the clock reading the handler took; \<open>qnow l\<close> is what \<^verbatim>\<open>Date.now()\<close> returns inside
  \<^verbatim>\<open>queueTaskEvent\<close> when the event of line \<open>l\<close> is queued. \<open>checkedEvent\<close> is the
  event object the handler builds; it carries no coordinate.
\<close>

definition checkedEvent :: "string \<Rightarrow> nat \<Rightarrow> int \<Rightarrow> TaskEvent" where
  "checkedEvent path l now =
     \<lparr>file_path = path, line = l, checked = True, timestamp = now, coords = None\<rparr>"

definition handleTask ::
  "host_env \<Rightarrow> int \<Rightarrow> (nat \<Rightarrow> int) \<Rightarrow> string \<Rightarrow> (nat \<times> bool) list \<Rightarrow> ListItemCache \<Rightarrow>
   (nat \<times> bool) list \<times> TaskRewardPlugin \<Rightarrow> (nat \<times> bool) list \<times> TaskRewardPlugin" where
  "handleTask env now qnow path previousStates t acc =
     (case acc of (currentStates, s) \<Rightarrow>
       (let l = position_start_line t;
            isC = isChecked t;
            wasChecked = (case map_of previousStates l of None \<Rightarrow> False | Some b \<Rightarrow> b);
            currentStates' = AList.update l isC currentStates
        in
          if \<not> wasChecked \<and> isC then
            (if undoProtected now (taskKey path l) s then (currentStates', s)
             else
               (currentStates',
                queueTaskEvent env (qnow l) (checkedEvent path l now)
                  (cleanupUndoProtection now s)))
          else if wasChecked \<and> \<not> isC then
            (currentStates',
             s\<lparr>undoProtection := AList.update (taskKey path l) now (undoProtection s)\<rparr>)
          else (currentStates', s)))"

definition handleTaskMetadataChange ::
  "host_env \<Rightarrow> int \<Rightarrow> (nat \<Rightarrow> int) \<Rightarrow> string \<Rightarrow> CachedMetadata option \<Rightarrow>
   TaskRewardPlugin \<Rightarrow> TaskRewardPlugin" where
  "handleTaskMetadataChange env now qnow path cache s =
     (case cache of
        None \<Rightarrow> s\<lparr>taskStates := AList.delete path (taskStates s)\<rparr>
      | Some c \<Rightarrow>
          (let tasks = filter (\<lambda>item. task item \<noteq> None)
                         (case listItems c of None \<Rightarrow> [] | Some items \<Rightarrow> items)
           in
             case map_of (taskStates s) path of
               None \<Rightarrow>
                 s\<lparr>taskStates :=
                     AList.update path
                       (fold (\<lambda>t cur. AList.update (position_start_line t) (isChecked t) cur)
                          tasks [])
                       (taskStates s)\<rparr>
             | Some previousStates \<Rightarrow>
                 (case fold (handleTask env now qnow path previousStates) tasks ([], s) of
                    (currentStates, s') \<Rightarrow>
                      s'\<lparr>taskStates := AList.update path currentStates (taskStates s')\<rparr>)))"

section \<open>Flushing the batch\<close>

definition getParticleCount :: "intensity \<Rightarrow> nat" where
  "getParticleCount _ = 150"

definition getFeedbackProfile :: "host_env \<Rightarrow> TaskRewardPlugin \<Rightarrow> nat \<Rightarrow> FeedbackProfile" where
  "getFeedbackProfile env s count =
     (let reducedMotion = prefersReducedMotion env;
          muted = globalMute (settings s);
          i = heavy
      in
        \<lparr>sound = (if muted then None else Some (i, soundVolume (settings s))),
         confetti =
           (if reducedMotion \<or> disableConfetti (settings s) then None
            else Some \<lparr>intensity = i, particleCount = getParticleCount i,
                        duration = confettiDuration (settings s)\<rparr>)\<rparr>)"

text \<open>
  \<^verbatim>\<open>getConfettiOrigin\<close> stores the coordinate it computes for an event in that event, so
  it returns the events as it leaves them next to the origin.
\<close>

definition getConfettiOrigin ::
  "host_env \<Rightarrow> TaskEvent list \<Rightarrow> coords option \<times> TaskEvent list" where
  "getConfettiOrigin env events =
     (let events' =
            map (\<lambda>event.
                   if coords event = None
                   then event\<lparr>coords := computeTaskCoordinates env (file_path event) (line event)\<rparr>
                   else event) events;
          cs = concat (map (\<lambda>event. case coords event of None \<Rightarrow> [] | Some c \<Rightarrow> [c]) events')
      in
        if length cs = 0 then (None, events')
        else
          (let sum = fold (\<lambda>c acc. (fst acc + fst c, snd acc + snd c)) cs (0, 0) in
           (Some (fst sum / real (length cs), snd sum / real (length cs)), events')))"

text \<open>
  A call either returns or raises; the state it leaves behind is there in both cases.
  A driver call is recorded, and raises when the host says so.
\<close>

datatype completion = Returned | Raised

definition call_driver ::
  "host_env \<Rightarrow> driver_call \<Rightarrow> TaskRewardPlugin \<Rightarrow> completion \<times> TaskRewardPlugin" where
  "call_driver env c s =
     (if driver_throws env c then Raised else Returned, s\<lparr>driver_calls := driver_calls s @ [c]\<rparr>)"

text \<open>
  \<^verbatim>\<open>triggerFeedback\<close> has no exception handler: when the sound call raises, the confetti
  part is not reached. The result carries the events as \<^verbatim>\<open>getConfettiOrigin\<close> left them
  (unchanged when it did not run). The timing warning writes to the console only.
\<close>

definition triggerFeedback ::
  "host_env \<Rightarrow> FeedbackProfile \<Rightarrow> TaskEvent list \<Rightarrow> TaskRewardPlugin \<Rightarrow>
   completion \<times> TaskEvent list \<times> TaskRewardPlugin" where
  "triggerFeedback env profile events s =
     (case (case sound profile of
              None \<Rightarrow> (Returned, s)
            | Some (i, v) \<Rightarrow>
                if enableSound (settings s) then call_driver env (PlayRewardSound i v) s
                else (Returned, s)) of
        (Raised, s1) \<Rightarrow> (Raised, events, s1)
      | (Returned, s1) \<Rightarrow>
          (case confetti profile of
             None \<Rightarrow> (Returned, events, s1)
           | Some cp \<Rightarrow>
               if enableConfetti (settings s1) then
                 (case getConfettiOrigin env events of
                    (org, events') \<Rightarrow>
                      (case call_driver env
                              (Burst \<lparr>intensity = intensity cp, particleCount = particleCount cp,
                                      duration = duration cp, origin = org\<rparr>) s1 of
                         (c, s2) \<Rightarrow> (c, events', s2)))
               else (Returned, events, s1)))"

text \<open>
  \<^verbatim>\<open>processMergedEvents\<close>, run at clock reading \<open>now\<close>. The copy \<^verbatim>\<open>events\<close> shares its
  event objects with the queue, so when \<^verbatim>\<open>triggerFeedback\<close> raises, the queue is left with
  the events as they are then.
\<close>

definition processMergedEvents ::
  "host_env \<Rightarrow> int \<Rightarrow> TaskRewardPlugin \<Rightarrow> completion \<times> TaskRewardPlugin" where
  "processMergedEvents env now s =
     (let events = taskEventQueue s;
          count = length events
      in
        if now - lastFeedbackTime s < throttleMs (settings s) then
          (Returned, s\<lparr>taskEventQueue := [], mergeTimer := None\<rparr>)
        else if count = 0 then (Returned, s\<lparr>mergeTimer := None\<rparr>)
        else
          (case triggerFeedback env (getFeedbackProfile env s count) events s of
             (Raised, events', s') \<Rightarrow> (Raised, s'\<lparr>taskEventQueue := events'\<rparr>)
           | (Returned, events', s') \<Rightarrow>
               (Returned, s'\<lparr>taskEventQueue := [], mergeTimer := None,
                              lastFeedbackTime := now\<rparr>)))"

subsection \<open>The window runs the timer callback\<close>

text \<open>
  A timeout can run once its due time has come; running it removes it from the
  outstanding ones and calls \<^verbatim>\<open>processMergedEvents\<close>. An exception that escapes the
  callback is reported by the window and goes no further.
\<close>

definition fireTimer ::
  "host_env \<Rightarrow> nat \<Rightarrow> int \<Rightarrow> TaskRewardPlugin \<Rightarrow> (completion \<times> TaskRewardPlugin) option" where
  "fireTimer env h now s =
     (case map_of (window_timers s) h of
        None \<Rightarrow> None
      | Some due \<Rightarrow>
          if now < due then None
          else Some (processMergedEvents env now
                       (s\<lparr>window_timers := AList.delete h (window_timers s),
                          window_fired := window_fired s @ [now]\<rparr>)))"

text \<open>Run every timeout that is due at \<open>now\<close>.\<close>

definition runDueTimers :: "host_env \<Rightarrow> int \<Rightarrow> TaskRewardPlugin \<Rightarrow> TaskRewardPlugin" where
  "runDueTimers env now s =
     fold (\<lambda>(h, due) s'.
             if due \<le> now then
               (case fireTimer env h now s' of None \<Rightarrow> s' | Some (_, s'') \<Rightarrow> s'')
             else s')
          (window_timers s) s"

text \<open>
  A series of check events, each with the time at which it is queued: before an event is
  queued at time \<open>t\<close>, the window has run the timeouts due at \<open>t\<close>.
\<close>

fun arrivals ::
  "host_env \<Rightarrow> (TaskEvent \<times> int) list \<Rightarrow> TaskRewardPlugin \<Rightarrow> TaskRewardPlugin" where
  "arrivals env [] s = s"
| "arrivals env ((event, t) # rest) s =
     arrivals env rest (queueTaskEvent env t event (runDueTimers env t s))"

text \<open>Each event comes less than \<open>w\<close> after the one before it, and not before it.\<close>

fun withinWindow :: "int \<Rightarrow> int list \<Rightarrow> bool" where
  "withinWindow w (t # t' # ts) = (t \<le> t' \<and> t' - t < w \<and> withinWindow w (t' # ts))"
| "withinWindow w _ = True"

section \<open>The test buttons of the settings tab\<close>

definition testSingleCompletion ::
  "host_env \<Rightarrow> TaskRewardPlugin \<Rightarrow> completion \<times> TaskRewardPlugin" where
  "testSingleCompletion env s =
     (case call_driver env (PlayRewardSound light (soundVolume (settings s))) s of
        (Raised, s1) \<Rightarrow> (Raised, s1)
      | (Returned, s1) \<Rightarrow>
          call_driver env
            (Burst \<lparr>intensity = light, particleCount = 15,
                    duration = confettiDuration (settings s1), origin = None\<rparr>) s1)"

definition testBatchCompletion ::
  "host_env \<Rightarrow> TaskRewardPlugin \<Rightarrow> completion \<times> TaskRewardPlugin" where
  "testBatchCompletion env s =
     (case call_driver env (PlayRewardSound heavy (soundVolume (settings s))) s of
        (Raised, s1) \<Rightarrow> (Raised, s1)
      | (Returned, s1) \<Rightarrow>
          call_driver env
            (Burst \<lparr>intensity = heavy, particleCount = 50,
                    duration = confettiDuration (settings s1), origin = None\<rparr>) s1)"

section \<open>The sound driver\<close>

text \<open>
  Of the \<^verbatim>\<open>SoundManager\<close>: whether loading is still in flight, \<^verbatim>\<open>useWebAudio\<close>, and
  whether a decoded buffer and an audio element exist.
\<close>

record SoundManager =
  loading :: bool
  useWebAudio :: bool
  audioBuffer :: bool
  audioElement :: bool

text \<open>
  What the audio host does: whether an audio context can be had, whether it is suspended
  and whether resuming it is rejected, whether starting the buffer source raises, whether
  the element's \<^verbatim>\<open>play()\<close> raises or is rejected, whether synthesizing raises.
\<close>

record audio_env =
  contextAvailable :: bool
  contextSuspended :: bool
  resumeRejected :: bool
  startRaises :: bool
  htmlPlayFails :: bool
  synthRaises :: bool

text \<open>
  What a call ends in: the buffer played with a gain, the element played with a volume,
  a tone synthesized with a volume and a number of layers, nothing, or the call put off
  until loading settles (it is then made again).
\<close>

datatype playback =
  WebAudioPlayback real
| HTML5Playback real
| SynthesizedTone real nat
| NoPlayback
| Deferred

definition playSynthesizedSound :: "audio_env \<Rightarrow> intensity \<Rightarrow> real \<Rightarrow> playback" where
  "playSynthesizedSound a i volume =
     (if synthRaises a then NoPlayback
      else SynthesizedTone volume (if i = light then 1 else if i = medium then 2 else 3))"

definition playHTML5Audio :: "audio_env \<Rightarrow> intensity \<Rightarrow> real \<Rightarrow> SoundManager \<Rightarrow> playback" where
  "playHTML5Audio a i volume m =
     (if \<not> audioElement m then NoPlayback
      else if htmlPlayFails a then playSynthesizedSound a i volume
      else HTML5Playback volume)"

definition playWebAudio ::
  "audio_env \<Rightarrow> intensity \<Rightarrow> real \<Rightarrow> SoundManager \<Rightarrow> playback \<times> SoundManager" where
  "playWebAudio a i volume m =
     (if \<not> audioBuffer m then (NoPlayback, m)
      else if \<not> contextAvailable a then
        (playHTML5Audio a i volume (m\<lparr>useWebAudio := False\<rparr>), m\<lparr>useWebAudio := False\<rparr>)
      else if contextSuspended a \<and> resumeRejected a then
        (playHTML5Audio a i volume (m\<lparr>useWebAudio := False\<rparr>), m\<lparr>useWebAudio := False\<rparr>)
      else if startRaises a then (playHTML5Audio a i volume m, m)
      else (WebAudioPlayback volume, m))"

definition adjustedVolume :: "intensity \<Rightarrow> real \<Rightarrow> real" where
  "adjustedVolume i volume =
     (let volumeMultiplier = (if i = light then 8 / 10 else if i = medium then 1 else 12 / 10)
      in min (volume * volumeMultiplier) 1)"

definition playRewardSound ::
  "audio_env \<Rightarrow> intensity \<Rightarrow> real \<Rightarrow> SoundManager \<Rightarrow> playback \<times> SoundManager" where
  "playRewardSound a i volume m =
     (if loading m then (Deferred, m)
      else if useWebAudio m \<and> audioBuffer m then playWebAudio a i (adjustedVolume i volume) m
      else if audioElement m then (playHTML5Audio a i (adjustedVolume i volume) m, m)
      else (playSynthesizedSound a i volume, m))"

section \<open>The confetti driver\<close>












section \<open>Example hosts and states\<close>

text \<open>A host with no active view in which no driver call raises, one in which
  \<^verbatim>\<open>burst\<close> raises, and one in which \<^verbatim>\<open>playRewardSound\<close> raises.\<close>

definition quietEnv :: host_env where
  "quietEnv = \<lparr>activeView = None, prefersReducedMotion = False, driver_throws = (\<lambda>_. False)\<rparr>"



definition checkEvent :: "nat \<Rightarrow> int \<Rightarrow> TaskEvent" where
  "checkEvent l t = checkedEvent ''todo.md'' l t"

text \<open>A state in which the checkbox of line 3 was clicked at time 1000.\<close>

definition cachedState :: TaskRewardPlugin where
  "cachedState =
     (initial DEFAULT_SETTINGS)
       \<lparr>recentTaskCoordinates := [(taskKey ''todo.md'' 3, ((120, 240), 1000))]\<rparr>"

text \<open>A state with one event queued and no flush so far.\<close>

definition firstState :: TaskRewardPlugin where
  "firstState =
     (initial DEFAULT_SETTINGS)
       \<lparr>taskEventQueue := [checkEvent 3 5000], mergeTimer := Some 1\<rparr>"

text \<open>A sound manager for which no audio asset was found, and an audio host in which
  nothing fails.\<close>

definition noAssets :: SoundManager where
  "noAssets = \<lparr>loading = False, useWebAudio = True, audioBuffer = False, audioElement = False\<rparr>"

definition workingAudio :: audio_env where
  "workingAudio =
     \<lparr>contextAvailable = True, contextSuspended = False, resumeRejected = False,
      startRaises = False, htmlPlayFails = False, synthRaises = False\<rparr>"




text \<open>A ledger with one old entry, a ledger with 101 entries (the \<open>i\<close>-th one recorded
  at time \<open>40 * i\<close>), and list items for an unchecked and a checked task.\<close>

definition oldEntryState :: TaskRewardPlugin where
  "oldEntryState =
     (initial DEFAULT_SETTINGS)\<lparr>undoProtection := [(taskKey ''todo.md'' 3, 1000)]\<rparr>"

definition crowdedState :: TaskRewardPlugin where
  "crowdedState =
     (initial DEFAULT_SETTINGS)
       \<lparr>undoProtection := map (\<lambda>i. (replicate i CHR ''a'', 40 * int i)) [0..<101]\<rparr>"

definition uncheckedItem :: "nat \<Rightarrow> ListItemCache" where
  "uncheckedItem l = \<lparr>position_start_line = l, task = Some '' ''\<rparr>"

definition checkedItem :: "nat \<Rightarrow> ListItemCache" where
  "checkedItem l = \<lparr>position_start_line = l, task = Some ''x''\<rparr>"

section \<open>Reachable states\<close>

text \<open>
  The timer invariant: the window has no timeout of the plugin outstanding, or exactly one,
  and then \<^verbatim>\<open>mergeTimer\<close> holds its handle.
\<close>

definition timerInv :: "TaskRewardPlugin \<Rightarrow> bool" where
  "timerInv s =
     (case window_timers s of
        [] \<Rightarrow> True
      | [(h, due)] \<Rightarrow> mergeTimer s = Some h \<and> h \<noteq> 0
      | _ \<Rightarrow> False)"

text \<open>
  With a merge window of 100 and a throttle of 1000: the state after a flush that
  dispatched at time 5000. And two check events, of lines 3 and 5, with their arrival
  times.
\<close>

definition fastSettings :: RewardSettings where
  "fastSettings = DEFAULT_SETTINGS\<lparr>mergeWindowMs := 100, throttleMs := 1000\<rparr>"

definition recentFlushState :: TaskRewardPlugin where
  "recentFlushState = (initial fastSettings)\<lparr>lastFeedbackTime := 5000\<rparr>"

definition twoChecks :: "int \<Rightarrow> int \<Rightarrow> (TaskEvent \<times> int) list" where
  "twoChecks t t' = [(checkEvent 3 t, t), (checkEvent 5 t', t')]"

text \<open>
  The states the plugin can be in: after loading; after the settings were saved; after a
  change notification, a click on a checkbox, a timeout that ran, a test button.
\<close>

inductive reachable :: "TaskRewardPlugin \<Rightarrow> bool" where
  loaded: "reachable (initial st)"
| saved: "reachable s \<Longrightarrow> reachable (s\<lparr>settings := st\<rparr>)"
| changed: "reachable s \<Longrightarrow> reachable (handleTaskMetadataChange env now qnow path cache s)"
| clicked: "reachable s \<Longrightarrow> reachable (recordTaskCoordinates path l c now s)"
| fired: "reachable s \<Longrightarrow> fireTimer env h now s = Some (c, s') \<Longrightarrow> reachable s'"
| testedSingle: "reachable s \<Longrightarrow> reachable (snd (testSingleCompletion env s))"
| testedBatch: "reachable s \<Longrightarrow> reachable (snd (testBatchCompletion env s))"

section \<open>Properties of the coordinate cache\<close>

text \<open>
  C10. Queueing a check event for a task always removes that task's entry from the
  coordinate cache: afterwards the cache has no entry under the key. An entry that is too
  old to be used has no influence on the result: the state is the one reached when the
  entry had not been there.
\<close>

theorem queueTaskEvent_clears_cache_entry:
  "map_of (recentTaskCoordinates (queueTaskEvent env now event s))
     (taskKey (file_path event) (line event)) = None
   \<and> (\<forall>c ts. map_of (recentTaskCoordinates s) (taskKey (file_path event) (line event)) = Some (c, ts)
         \<and> 1500 \<le> now - ts \<longrightarrow>
       queueTaskEvent env now event s =
       queueTaskEvent env now event
         (s\<lparr>recentTaskCoordinates :=
              AList.delete (taskKey (file_path event) (line event)) (recentTaskCoordinates s)\<rparr>))"
  by (auto simp: queueTaskEvent_def Let_def cachedCoords_def setTimeout_def clearTimeout_def
        delete_conv' delete_idem split: option.splits prod.splits)

theorem queueTaskEvent_clears_cache_entry_witness:
  "map_of (recentTaskCoordinates cachedState) (taskKey ''todo.md'' 3) = Some ((120, 240), 1000)
   \<and> (1500::int) \<le> 5000 - 1000
   \<and> map_of (recentTaskCoordinates (queueTaskEvent quietEnv 5000 (checkEvent 3 5000) cachedState))
        (taskKey ''todo.md'' 3) = None
   \<and> queueTaskEvent quietEnv 5000 (checkEvent 3 5000) cachedState =
       queueTaskEvent quietEnv 5000 (checkEvent 3 5000)
         (cachedState\<lparr>recentTaskCoordinates :=
            AList.delete (taskKey ''todo.md'' 3) (recentTaskCoordinates cachedState)\<rparr>)"
proof -
  have stored: "map_of (recentTaskCoordinates cachedState) (taskKey ''todo.md'' 3)
                  = Some ((120, 240), 1000)"
    by (simp add: cachedState_def)
  have stale: "(1500::int) \<le> 5000 - 1000"
    by simp
  have key: "taskKey (file_path (checkEvent 3 5000)) (line (checkEvent 3 5000)) = taskKey ''todo.md'' 3"
    by (simp add: checkEvent_def checkedEvent_def)
  note T = queueTaskEvent_clears_cache_entry
             [where env = quietEnv and now = 5000 and event = "checkEvent 3 5000"
                and s = cachedState, unfolded key]
  from T stored stale show ?thesis by blast
qed

text \<open>
  C7. A check event built by the handler is queued with exactly the cached coordinate when
  the cache has an entry for its key that is less than 1500 ms old; in particular with the
  coordinate the click handler stored. When there is no entry, or the entry is older than
  that, the coordinate is the result of the geometry lookup.
\<close>

theorem cached_coordinate_round_trip:
  "(\<forall>c ts. map_of (recentTaskCoordinates s) (taskKey path l) = Some (c, ts) \<and> now - ts < 1500 \<longrightarrow>
      taskEventQueue (queueTaskEvent env now (checkedEvent path l t) s) =
        taskEventQueue s @ [(checkedEvent path l t)\<lparr>coords := Some c\<rparr>])
   \<and> ((map_of (recentTaskCoordinates s) (taskKey path l) = None
        \<or> (\<exists>c ts. map_of (recentTaskCoordinates s) (taskKey path l) = Some (c, ts)
              \<and> 1500 < now - ts)) \<longrightarrow>
      taskEventQueue (queueTaskEvent env now (checkedEvent path l t) s) =
        taskEventQueue s @ [(checkedEvent path l t)\<lparr>coords := computeTaskCoordinates env path l\<rparr>])
   \<and> (\<forall>c t0. now - t0 < 1500 \<longrightarrow>
      taskEventQueue (queueTaskEvent env now (checkedEvent path l t)
                        (recordTaskCoordinates path l c t0 s)) =
        taskEventQueue s @ [(checkedEvent path l t)\<lparr>coords := Some c\<rparr>])"
  by (auto simp: queueTaskEvent_def Let_def cachedCoords_def setTimeout_def clearTimeout_def
        recordTaskCoordinates_def checkedEvent_def update_conv' split: option.splits prod.splits)

theorem cached_coordinate_round_trip_witness:
  "map_of (recentTaskCoordinates cachedState) (taskKey ''todo.md'' 3) = Some ((120, 240), 1000)
   \<and> (2000::int) - 1000 < 1500
   \<and> taskEventQueue (queueTaskEvent quietEnv 2000 (checkEvent 3 1990) cachedState) =
       [(checkEvent 3 1990)\<lparr>coords := Some (120, 240)\<rparr>]
   \<and> (1500::int) < 5000 - 1000
   \<and> taskEventQueue (queueTaskEvent quietEnv 5000 (checkEvent 3 1990) cachedState) =
       [(checkEvent 3 1990)\<lparr>coords := computeTaskCoordinates quietEnv ''todo.md'' 3\<rparr>]"
proof -
  have stored: "map_of (recentTaskCoordinates cachedState) (taskKey ''todo.md'' 3)
                  = Some ((120, 240), 1000)"
    by (simp add: cachedState_def)
  have empty: "taskEventQueue cachedState = []"
    by (simp add: cachedState_def initial_def)
  have fresh: "(2000::int) - 1000 < 1500" and stale: "(1500::int) < 5000 - 1000"
    by simp_all
  note T1 = cached_coordinate_round_trip
              [where s = cachedState and path = "''todo.md''" and l = 3 and now = 2000
                 and t = 1990 and env = quietEnv, folded checkEvent_def, unfolded empty append_Nil]
  note T2 = cached_coordinate_round_trip
              [where s = cachedState and path = "''todo.md''" and l = 3 and now = 5000
                 and t = 1990 and env = quietEnv, folded checkEvent_def, unfolded empty append_Nil]
  from T1 stored fresh have 1:
    "taskEventQueue (queueTaskEvent quietEnv 2000 (checkEvent 3 1990) cachedState) =
       [(checkEvent 3 1990)\<lparr>coords := Some (120, 240)\<rparr>]"
    by blast
  from T2 stored stale have 2:
    "taskEventQueue (queueTaskEvent quietEnv 5000 (checkEvent 3 1990) cachedState) =
       [(checkEvent 3 1990)\<lparr>coords := computeTaskCoordinates quietEnv ''todo.md'' 3\<rparr>]"
    by blast
  from stored fresh stale 1 2 show ?thesis by blast
qed

section \<open>Properties of the flush\<close>

lemma queueTaskEvent_keeps:
  "lastFeedbackTime (queueTaskEvent env t ev s) = lastFeedbackTime s"
  "settings (queueTaskEvent env t ev s) = settings s"
  "driver_calls (queueTaskEvent env t ev s) = driver_calls s"
  "window_fired (queueTaskEvent env t ev s) = window_fired s"
  "undoProtection (queueTaskEvent env t ev s) = undoProtection s"
  "taskStates (queueTaskEvent env t ev s) = taskStates s"
  by (simp_all add: queueTaskEvent_def Let_def setTimeout_def clearTimeout_def
        split: option.splits prod.splits)

lemma fold_queueTaskEvent_keeps:
  "lastFeedbackTime (fold (\<lambda>(ev, t). queueTaskEvent env t ev) evs s) = lastFeedbackTime s
   \<and> settings (fold (\<lambda>(ev, t). queueTaskEvent env t ev) evs s) = settings s
   \<and> driver_calls (fold (\<lambda>(ev, t). queueTaskEvent env t ev) evs s) = driver_calls s"
  by (induction evs arbitrary: s) (auto simp: queueTaskEvent_keeps)

lemma processMergedEvents_records:
  assumes "processMergedEvents env now s = (Returned, s')"
    and "\<not> now - lastFeedbackTime s < throttleMs (settings s)"
    and "taskEventQueue s \<noteq> []"
  shows "lastFeedbackTime s' = now"
  using assms
  by (auto simp: processMergedEvents_def Let_def split: prod.splits completion.splits if_splits)

lemma triggerFeedback_keeps:
  assumes "triggerFeedback env profile events s = (c, events', s')"
  shows "settings s' = settings s" "mergeTimer s' = mergeTimer s"
    "lastFeedbackTime s' = lastFeedbackTime s" "taskEventQueue s' = taskEventQueue s"
    "window_timers s' = window_timers s" "window_fired s' = window_fired s"
    "length events' = length events"
  using assms
  by (auto simp: triggerFeedback_def call_driver_def getConfettiOrigin_def Let_def
        split: option.splits prod.splits completion.splits if_splits)

lemma processMergedEvents_settings:
  "settings (snd (processMergedEvents env now s)) = settings s"
  by (auto simp: processMergedEvents_def Let_def triggerFeedback_keeps
        split: prod.splits completion.splits)

text \<open>
  C4. A flush that begins less than \<open>throttleMs\<close> after the recorded time of the last
  dispatch calls no driver, discards the whole batch, clears the timer handle and leaves
  the recorded time alone. In particular: after a flush that dispatched at \<open>now1\<close>, and
  whatever was queued since, a flush at \<open>now2\<close> with \<open>now2 - now1 < throttleMs\<close>
  dispatches nothing, empties the batch and keeps \<open>now1\<close> as the recorded time.
\<close>

theorem throttled_flush_is_dropped:
  "(now - lastFeedbackTime s < throttleMs (settings s) \<longrightarrow>
      processMergedEvents env now s = (Returned, s\<lparr>taskEventQueue := [], mergeTimer := None\<rparr>))
   \<and> (processMergedEvents env1 now1 s0 = (Returned, s1) \<and> taskEventQueue s0 \<noteq> []
        \<and> \<not> now1 - lastFeedbackTime s0 < throttleMs (settings s0)
        \<and> s2 = fold (\<lambda>(ev, t). queueTaskEvent env2 t ev) evs s1
        \<and> now2 - now1 < throttleMs (settings s0) \<longrightarrow>
      processMergedEvents env3 now2 s2 = (Returned, s2\<lparr>taskEventQueue := [], mergeTimer := None\<rparr>)
      \<and> driver_calls (snd (processMergedEvents env3 now2 s2)) = driver_calls s1
      \<and> lastFeedbackTime (snd (processMergedEvents env3 now2 s2)) = now1
      \<and> taskEventQueue (snd (processMergedEvents env3 now2 s2)) = [])"
proof (intro conjI impI)
  assume "now - lastFeedbackTime s < throttleMs (settings s)"
  then show "processMergedEvents env now s = (Returned, s\<lparr>taskEventQueue := [], mergeTimer := None\<rparr>)"
    by (simp add: processMergedEvents_def)
next
  assume a: "processMergedEvents env1 now1 s0 = (Returned, s1) \<and> taskEventQueue s0 \<noteq> []
        \<and> \<not> now1 - lastFeedbackTime s0 < throttleMs (settings s0)
        \<and> s2 = fold (\<lambda>(ev, t). queueTaskEvent env2 t ev) evs s1
        \<and> now2 - now1 < throttleMs (settings s0)"
  then have rec: "lastFeedbackTime s1 = now1"
    using processMergedEvents_records by blast
  from a have "settings s1 = settings s0"
    using processMergedEvents_settings [of env1 now1 s0] by simp
  with a rec have thr: "now2 - lastFeedbackTime s2 < throttleMs (settings s2)"
    and dc: "driver_calls s2 = driver_calls s1" and lf: "lastFeedbackTime s2 = now1"
    by (simp_all add: fold_queueTaskEvent_keeps)
  then have eq: "processMergedEvents env3 now2 s2
                   = (Returned, s2\<lparr>taskEventQueue := [], mergeTimer := None\<rparr>)"
    by (simp add: processMergedEvents_def)
  show "processMergedEvents env3 now2 s2 = (Returned, s2\<lparr>taskEventQueue := [], mergeTimer := None\<rparr>)"
    by (rule eq)
  show "driver_calls (snd (processMergedEvents env3 now2 s2)) = driver_calls s1"
    by (simp add: eq dc)
  show "lastFeedbackTime (snd (processMergedEvents env3 now2 s2)) = now1"
    by (simp add: eq lf)
  show "taskEventQueue (snd (processMergedEvents env3 now2 s2)) = []"
    by (simp add: eq)
qed

lemma firstState_flush:
  "processMergedEvents quietEnv 5000 firstState =
     (Returned,
      firstState\<lparr>driver_calls :=
                   [PlayRewardSound heavy (3 / 10),
                    Burst \<lparr>intensity = heavy, particleCount = 150, duration = 800, origin = None\<rparr>],
                 taskEventQueue := [], mergeTimer := None, lastFeedbackTime := 5000\<rparr>)"
  by (simp add: processMergedEvents_def firstState_def initial_def DEFAULT_SETTINGS_def
        getFeedbackProfile_def getParticleCount_def triggerFeedback_def call_driver_def
        getConfettiOrigin_def computeTaskCoordinates_def quietEnv_def checkEvent_def
        checkedEvent_def Let_def)

theorem throttled_flush_is_dropped_witness:
  "processMergedEvents quietEnv 5000 firstState
     = (Returned, snd (processMergedEvents quietEnv 5000 firstState))
   \<and> taskEventQueue firstState \<noteq> []
   \<and> \<not> 5000 - lastFeedbackTime firstState < throttleMs (settings firstState)
   \<and> 5200 - 5000 < throttleMs (settings firstState)
   \<and> processMergedEvents quietEnv 5200
        (fold (\<lambda>(ev, t). queueTaskEvent quietEnv t ev) [(checkEvent 5 5100, 5100)]
           (snd (processMergedEvents quietEnv 5000 firstState)))
      = (Returned,
         (fold (\<lambda>(ev, t). queueTaskEvent quietEnv t ev) [(checkEvent 5 5100, 5100)]
            (snd (processMergedEvents quietEnv 5000 firstState)))
           \<lparr>taskEventQueue := [], mergeTimer := None\<rparr>)
   \<and> lastFeedbackTime
        (snd (processMergedEvents quietEnv 5200
                (fold (\<lambda>(ev, t). queueTaskEvent quietEnv t ev) [(checkEvent 5 5100, 5100)]
                   (snd (processMergedEvents quietEnv 5000 firstState))))) = 5000"
proof -
  have 1: "processMergedEvents quietEnv 5000 firstState
             = (Returned, snd (processMergedEvents quietEnv 5000 firstState))"
    by (simp add: firstState_flush)
  have 2: "taskEventQueue firstState \<noteq> []"
    and 3: "\<not> 5000 - lastFeedbackTime firstState < throttleMs (settings firstState)"
    and 4: "5200 - 5000 < throttleMs (settings firstState)"
    by (simp_all add: firstState_def initial_def DEFAULT_SETTINGS_def)
  note T = throttled_flush_is_dropped
             [where ?env1.0 = quietEnv and ?now1.0 = 5000 and ?s0.0 = firstState
                and ?s1.0 = "snd (processMergedEvents quietEnv 5000 firstState)"
                and ?env2.0 = quietEnv and evs = "[(checkEvent 5 5100, 5100)]"
                and ?s2.0 = "fold (\<lambda>(ev, t). queueTaskEvent quietEnv t ev) [(checkEvent 5 5100, 5100)]
                               (snd (processMergedEvents quietEnv 5000 firstState))"
                and ?now2.0 = 5200 and ?env3.0 = quietEnv]
  from T 1 2 3 4 show ?thesis by blast
qed

section \<open>Properties of the test buttons\<close>

text \<open>
  C6, as the code has it. The two test buttons call the drivers themselves:
  \<^verbatim>\<open>playRewardSound\<close> with intensity light (single) or heavy (batch) and the volume
  setting, then \<^verbatim>\<open>burst\<close> with that intensity, 15 or 50 particles, the duration setting and
  no origin. They consult neither \<^verbatim>\<open>getFeedbackProfile\<close> nor \<^verbatim>\<open>triggerFeedback\<close>, and
  no setting switches them off.
\<close>

theorem test_buttons_call_drivers_directly:
  "driver_calls (snd (testSingleCompletion env s)) =
     driver_calls s @
       PlayRewardSound light (soundVolume (settings s)) #
       (if driver_throws env (PlayRewardSound light (soundVolume (settings s))) then []
        else [Burst \<lparr>intensity = light, particleCount = 15,
                      duration = confettiDuration (settings s), origin = None\<rparr>])
   \<and> driver_calls (snd (testBatchCompletion env s)) =
     driver_calls s @
       PlayRewardSound heavy (soundVolume (settings s)) #
       (if driver_throws env (PlayRewardSound heavy (soundVolume (settings s))) then []
        else [Burst \<lparr>intensity = heavy, particleCount = 50,
                      duration = confettiDuration (settings s), origin = None\<rparr>])"
  by (simp add: testSingleCompletion_def testBatchCompletion_def call_driver_def)

theorem test_buttons_call_drivers_directly_witness:
  "driver_calls (snd (testSingleCompletion quietEnv (initial DEFAULT_SETTINGS))) =
     [PlayRewardSound light (3 / 10),
      Burst \<lparr>intensity = light, particleCount = 15, duration = 800, origin = None\<rparr>]
   \<and> driver_calls (snd (testBatchCompletion quietEnv (initial DEFAULT_SETTINGS))) =
     [PlayRewardSound heavy (3 / 10),
      Burst \<lparr>intensity = heavy, particleCount = 50, duration = 800, origin = None\<rparr>]"
  using test_buttons_call_drivers_directly [of quietEnv "initial DEFAULT_SETTINGS"]
  by (simp add: quietEnv_def initial_def DEFAULT_SETTINGS_def)

text \<open>
  C6 as stated fails: the driver calls of the test buttons are not those of the profile and dispatch path for
  batches of 1 and 5 events: that path always dispatches heavy with 150 particles.
\<close>

theorem test_single_differs_from_flush_path:
  "driver_calls (snd (testSingleCompletion quietEnv (initial DEFAULT_SETTINGS))) \<noteq>
   driver_calls (snd (snd (triggerFeedback quietEnv
                             (getFeedbackProfile quietEnv (initial DEFAULT_SETTINGS) 1)
                             [checkEvent 3 5000] (initial DEFAULT_SETTINGS))))
   \<and> driver_calls (snd (testBatchCompletion quietEnv (initial DEFAULT_SETTINGS))) \<noteq>
   driver_calls (snd (snd (triggerFeedback quietEnv
                             (getFeedbackProfile quietEnv (initial DEFAULT_SETTINGS) 5)
                             (map (\<lambda>l. checkEvent l 5000) [1, 2, 3, 4, 5])
                             (initial DEFAULT_SETTINGS))))"
  by (simp add: testSingleCompletion_def testBatchCompletion_def call_driver_def
        triggerFeedback_def getFeedbackProfile_def getParticleCount_def getConfettiOrigin_def
        computeTaskCoordinates_def quietEnv_def initial_def DEFAULT_SETTINGS_def
        checkEvent_def checkedEvent_def Let_def)

section \<open>Properties of the sound driver\<close>

text \<open>
  The decoded-buffer tier and the element tier play at the scaled and clamped volume, and
  so does the synthesized tone that replaces a failed element playback.
\<close>

lemma decoded_and_element_tiers_scaled:
  "\<not> loading m \<Longrightarrow> fst (playRewardSound a i volume m) = WebAudioPlayback v \<or>
     fst (playRewardSound a i volume m) = HTML5Playback v \<Longrightarrow> v = adjustedVolume i volume"
  by (auto simp: playRewardSound_def playWebAudio_def playHTML5Audio_def playSynthesizedSound_def
        split: if_splits)

lemma synthesized_after_element_failure_scaled:
  "\<not> loading m \<Longrightarrow> audioElement m \<Longrightarrow>
   fst (playRewardSound a i volume m) = SynthesizedTone v n \<Longrightarrow> v = adjustedVolume i volume"
  by (auto simp: playRewardSound_def playWebAudio_def playHTML5Audio_def playSynthesizedSound_def
        split: if_splits)

text \<open>
  C8. With no audio asset loaded, \<^verbatim>\<open>playRewardSound\<close> hands the synthesized tone the
  volume it was given, not the scaled one: heavy at 0.3 plays at 0.3 instead of 0.36,
  light at 0.5 plays at 0.5 instead of 0.4.
\<close>

theorem synthesized_fallback_gets_raw_volume:
  "playRewardSound workingAudio heavy (3 / 10) noAssets = (SynthesizedTone (3 / 10) 3, noAssets)
   \<and> adjustedVolume heavy (3 / 10) = 36 / 100
   \<and> playRewardSound workingAudio light (1 / 2) noAssets = (SynthesizedTone (1 / 2) 1, noAssets)
   \<and> adjustedVolume light (1 / 2) = 4 / 10"
  by (simp add: playRewardSound_def playSynthesizedSound_def noAssets_def workingAudio_def
        adjustedVolume_def)

section \<open>Properties of the confetti driver\<close>





section \<open>Exceptions during dispatch\<close>

lemma call_driver_result:
  "call_driver env d s = (c, s') \<Longrightarrow>
     (c = Raised \<longleftrightarrow> driver_throws env d) \<and> s' = s\<lparr>driver_calls := driver_calls s @ [d]\<rparr>"
  by (auto simp: call_driver_def split: if_splits)











section \<open>Properties of the undo-protection ledger\<close>

lemma fold_delete_filter:
  "fold (\<lambda>(key, time) m. if P time then AList.delete key m else m) es m =
     filter (\<lambda>(k, t). k \<notin> fst ` {e \<in> set es. P (snd e)}) m"
proof (induction es arbitrary: m)
  case Nil
  then show ?case by simp
next
  case (Cons e es)
  obtain k t where e: "e = (k, t)" by (cases e)
  show ?case
  proof (cases "P t")
    case True
    have S: "fst ` {e' \<in> set (e # es). P (snd e')} = insert k (fst ` {e \<in> set es. P (snd e)})"
      using True e by force
    have "filter (\<lambda>(k', t'). k' \<notin> fst ` {e \<in> set es. P (snd e)}) (AList.delete k m) =
          filter (\<lambda>(k', t'). k' \<notin> fst ` {e' \<in> set (e # es). P (snd e')}) m"
      unfolding S by (auto simp: AList.delete_eq intro!: filter_cong)
    with Cons.IH [of "AList.delete k m"] True e show ?thesis by simp
  next
    case False
    have "{e' \<in> set (e # es). P (snd e')} = {e \<in> set es. P (snd e)}"
      using False e by auto
    with Cons.IH [of m] False e show ?thesis by simp
  qed
qed

lemma cleanup_loop_keys:
  assumes "distinct (map fst m)" and "(k, t) \<in> set m"
  shows "(k \<in> fst ` {e \<in> set m. P (snd e)}) = P t"
proof
  assume "k \<in> fst ` {e \<in> set m. P (snd e)}"
  then obtain t' where in': "(k, t') \<in> set m" and p: "P t'"
    by auto
  have "t' = t"
    by (rule eq_key_imp_eq_value [OF assms(1) in' assms(2)])
  with p show "P t" by simp
next
  assume "P t"
  with assms(2) have "(k, t) \<in> {e \<in> set m. P (snd e)}"
    by simp
  then show "k \<in> fst ` {e \<in> set m. P (snd e)}"
    by (rule rev_image_eqI) simp
qed

lemma cleanup_loop_filter:
  assumes "distinct (map fst m)"
  shows "fold (\<lambda>(key, time) m. if P time then AList.delete key m else m) m m =
           filter (\<lambda>(k, t). \<not> P t) m"
proof -
  have "(case x of (k, t) \<Rightarrow> k \<notin> fst ` {e \<in> set m. P (snd e)}) = (case x of (k, t) \<Rightarrow> \<not> P t)"
    if "x \<in> set m" for x
  proof -
    obtain k t where x: "x = (k, t)" by (cases x)
    with that have "(k, t) \<in> set m" by simp
    from cleanup_loop_keys [OF assms this, of P] show ?thesis
      by (simp only: x prod.case)
  qed
  then have "filter (\<lambda>(k, t). k \<notin> fst ` {e \<in> set m. P (snd e)}) m = filter (\<lambda>(k, t). \<not> P t) m"
    by (rule filter_cong [OF refl])
  then show ?thesis by (simp add: fold_delete_filter)
qed

lemma cleanupUndoProtection_keeps:
  "taskEventQueue (cleanupUndoProtection now s) = taskEventQueue s"
  "settings (cleanupUndoProtection now s) = settings s"
  "recentTaskCoordinates (cleanupUndoProtection now s) = recentTaskCoordinates s"
  "mergeTimer (cleanupUndoProtection now s) = mergeTimer s"
  "window_timers (cleanupUndoProtection now s) = window_timers s"
  by (simp_all add: cleanupUndoProtection_def)

lemma keys_differ: "taskKey ''todo.md'' 5 \<noteq> taskKey ''todo.md'' 3"
  by (simp add: taskKey_def showNat.simps)

lemma item_facts:
  "isChecked (checkedItem l)" "\<not> isChecked (uncheckedItem l)"
  "position_start_line (checkedItem l) = l" "position_start_line (uncheckedItem l) = l"
  by (simp_all add: isChecked_def trim_def toLowerCase_def isSpace_def checkedItem_def
        uncheckedItem_def)

lemma crowded_facts:
  "length (undoProtection crowdedState) = 101"
  "distinct (map fst (undoProtection crowdedState))"
proof -
  show "length (undoProtection crowdedState) = 101"
    by (simp add: crowdedState_def)
  have "inj_on (\<lambda>i. replicate i CHR ''a'') A" for A :: "nat set"
    by (rule inj_onI) (metis length_replicate)
  then show "distinct (map fst (undoProtection crowdedState))"
    by (simp add: crowdedState_def comp_def distinct_map)
qed

text \<open>
  C5, as the code has it. Entries are evicted by \<^verbatim>\<open>cleanupUndoProtection\<close> only, which
  runs for a check that is not suppressed, before the event is queued. With 100 entries or
  fewer it evicts nothing; with more, it removes exactly the entries whose time is more
  than twice the undo window before \<open>now\<close>. An uncheck inserts its time and evicts
  nothing.
\<close>

theorem eviction_only_when_crowded_on_check:
  "(length (undoProtection s) \<le> 100 \<longrightarrow> cleanupUndoProtection now s = s)
   \<and> (100 < length (undoProtection s) \<and> distinct (map fst (undoProtection s)) \<longrightarrow>
        undoProtection (cleanupUndoProtection now s) =
          filter (\<lambda>(key, time). \<not> now - time > undoWindowMs (settings s) * 2) (undoProtection s))
   \<and> (map_of prev (position_start_line t) = Some True \<and> \<not> isChecked t \<longrightarrow>
        undoProtection (snd (handleTask env now q path prev t (cur, s))) =
          AList.update (taskKey path (position_start_line t)) now (undoProtection s))
   \<and> (map_of prev (position_start_line t) \<noteq> Some True \<and> isChecked t
        \<and> \<not> undoProtected now (taskKey path (position_start_line t)) s \<longrightarrow>
        undoProtection (snd (handleTask env now q path prev t (cur, s))) =
          undoProtection (cleanupUndoProtection now s))"
proof (intro conjI impI)
  assume "length (undoProtection s) \<le> 100"
  then show "cleanupUndoProtection now s = s"
    by (simp add: cleanupUndoProtection_def)
next
  assume "100 < length (undoProtection s) \<and> distinct (map fst (undoProtection s))"
  then show "undoProtection (cleanupUndoProtection now s) =
          filter (\<lambda>(key, time). \<not> now - time > undoWindowMs (settings s) * 2) (undoProtection s)"
    using cleanup_loop_filter [of "undoProtection s" "\<lambda>time. now - time > undoWindowMs (settings s) * 2"]
    by (simp add: cleanupUndoProtection_def)
next
  assume "map_of prev (position_start_line t) = Some True \<and> \<not> isChecked t"
  then show "undoProtection (snd (handleTask env now q path prev t (cur, s))) =
          AList.update (taskKey path (position_start_line t)) now (undoProtection s)"
    by (simp add: handleTask_def Let_def)
next
  assume "map_of prev (position_start_line t) \<noteq> Some True \<and> isChecked t
        \<and> \<not> undoProtected now (taskKey path (position_start_line t)) s"
  then show "undoProtection (snd (handleTask env now q path prev t (cur, s))) =
          undoProtection (cleanupUndoProtection now s)"
    by (auto simp: handleTask_def Let_def queueTaskEvent_keeps split: option.splits)
qed

theorem eviction_only_when_crowded_on_check_witness:
  "length (undoProtection oldEntryState) \<le> 100
   \<and> cleanupUndoProtection 10000 oldEntryState = oldEntryState
   \<and> 100 < length (undoProtection crowdedState)
   \<and> distinct (map fst (undoProtection crowdedState))
   \<and> undoProtection (cleanupUndoProtection 5000 crowdedState) =
        filter (\<lambda>(key, time). \<not> 5000 - time > undoWindowMs (settings crowdedState) * 2)
          (undoProtection crowdedState)
   \<and> (replicate 3 CHR ''a'', 120) \<in> set (undoProtection crowdedState)
   \<and> (replicate 3 CHR ''a'', 120) \<notin> set (undoProtection (cleanupUndoProtection 5000 crowdedState))
   \<and> map_of [(5, True)] (position_start_line (uncheckedItem 5)) = Some True
   \<and> \<not> isChecked (uncheckedItem 5)
   \<and> undoProtection
        (snd (handleTask quietEnv 10000 (\<lambda>_. 10000) ''todo.md'' [(5, True)] (uncheckedItem 5)
                ([], oldEntryState)))
      = AList.update (taskKey ''todo.md'' 5) 10000 (undoProtection oldEntryState)"
proof -
  have small: "length (undoProtection oldEntryState) \<le> 100"
    by (simp add: oldEntryState_def)
  have big: "100 < length (undoProtection crowdedState)"
    by (simp add: crowded_facts)
  have un: "map_of [(5, True)] (position_start_line (uncheckedItem 5)) = Some True"
      "\<not> isChecked (uncheckedItem 5)"
    by (simp_all add: item_facts)
  have member: "(replicate 3 CHR ''a'', 120) \<in> set (undoProtection crowdedState)"
  proof -
    have "(replicate 3 CHR ''a'', 40 * int 3) \<in> (\<lambda>i. (replicate i CHR ''a'', 40 * int i)) ` {0..<101}"
      by (rule imageI) simp
    then show ?thesis by (simp add: crowdedState_def)
  qed
  note T1 = eviction_only_when_crowded_on_check
              [where s = oldEntryState and now = 10000 and prev = "[(5, True)]"
                 and t = "uncheckedItem 5" and env = quietEnv and q = "\<lambda>_. 10000"
                 and path = "''todo.md''" and cur = "[]"]
  note T2 = eviction_only_when_crowded_on_check
              [where s = crowdedState and now = 5000]
  from T1 small have a: "cleanupUndoProtection 10000 oldEntryState = oldEntryState"
    by blast
  from T1 un have b:
    "undoProtection
        (snd (handleTask quietEnv 10000 (\<lambda>_. 10000) ''todo.md'' [(5, True)] (uncheckedItem 5)
                ([], oldEntryState)))
      = AList.update (taskKey ''todo.md'' 5) 10000 (undoProtection oldEntryState)"
    by (simp add: item_facts)
  from T2 big crowded_facts(2) have c:
    "undoProtection (cleanupUndoProtection 5000 crowdedState) =
        filter (\<lambda>(key, time). \<not> 5000 - time > undoWindowMs (settings crowdedState) * 2)
          (undoProtection crowdedState)"
    by blast
  have d: "(replicate 3 CHR ''a'', 120) \<notin> set (undoProtection (cleanupUndoProtection 5000 crowdedState))"
  proof -
    have "undoWindowMs (settings crowdedState) = 1000"
      by (simp add: crowdedState_def initial_def DEFAULT_SETTINGS_def)
    then show ?thesis
      unfolding c by (simp only: set_filter mem_Collect_eq) simp
  qed
  from small a big crowded_facts(2) c member d un b show ?thesis
    by blast
qed

text \<open>
  C5 as stated fails: an insertion at time 10000 keeps an entry recorded at time 1000, with an undo window of
  1000; so does the cleanup of the check path, the ledger being small.
\<close>

theorem insert_keeps_old_entry:
  "undoProtection
     (snd (handleTask quietEnv 10000 (\<lambda>_. 10000) ''todo.md'' [(5, True)] (uncheckedItem 5)
             ([], oldEntryState)))
     = [(taskKey ''todo.md'' 3, 1000), (taskKey ''todo.md'' 5, 10000)]
   \<and> 10000 - 1000 > undoWindowMs (settings oldEntryState) * 2
   \<and> undoProtection (cleanupUndoProtection 10000 oldEntryState) = [(taskKey ''todo.md'' 3, 1000)]"
  using keys_differ
  by (simp add: handleTask_def Let_def item_facts oldEntryState_def initial_def
        DEFAULT_SETTINGS_def cleanupUndoProtection_def)

section \<open>Undo protection\<close>

lemma queueTaskEvent_queue_exact:
  "taskEventQueue (queueTaskEvent env now ev s) =
     taskEventQueue s @
       [ev\<lparr>coords :=
             (case cachedCoords now (map_of (recentTaskCoordinates s)
                                       (taskKey (file_path ev) (line ev))) of
                Some c \<Rightarrow> Some c
              | None \<Rightarrow>
                  (case coords ev of
                     Some c \<Rightarrow> Some c
                   | None \<Rightarrow> computeTaskCoordinates env (file_path ev) (line ev)))\<rparr>]"
  by (simp add: queueTaskEvent_def Let_def setTimeout_def clearTimeout_def
        split: option.splits prod.splits)

lemma queueTaskEvent_queue:
  "\<exists>cs. taskEventQueue (queueTaskEvent env now ev s) = taskEventQueue s @ [ev\<lparr>coords := cs\<rparr>]"
  unfolding queueTaskEvent_queue_exact by (rule exI) (rule refl)

text \<open>
  C2. Take any state, an uncheck of a task at time \<open>t1\<close> (a clock reading, hence not 0)
  and then a check of the same task at time \<open>t2\<close>. The uncheck records \<open>t1\<close> under the
  task's key and queues nothing. When \<open>t2 - t1 < undoWindowMs\<close> the check is suppressed:
  the pending batch is what it was. When \<open>t2 - t1 > undoWindowMs\<close> the check is queued:
  the batch grows by the event of that task at \<open>t2\<close>.
\<close>

theorem recheck_inside_undo_window_is_suppressed:
  "map_of prev1 l = Some True \<and> position_start_line u = l \<and> \<not> isChecked u
   \<and> map_of prev2 l \<noteq> Some True \<and> position_start_line c = l \<and> isChecked c
   \<and> t1 \<noteq> 0
   \<and> s1 = snd (handleTask env1 t1 q1 path prev1 u (cur1, s))
   \<and> s2 = snd (handleTask env2 t2 q2 path prev2 c (cur2, s1)) \<longrightarrow>
     map_of (undoProtection s1) (taskKey path l) = Some t1
   \<and> taskEventQueue s1 = taskEventQueue s
   \<and> (t2 - t1 < undoWindowMs (settings s) \<longrightarrow> taskEventQueue s2 = taskEventQueue s)
   \<and> (undoWindowMs (settings s) < t2 - t1 \<longrightarrow>
        (\<exists>cs. taskEventQueue s2 = taskEventQueue s @ [(checkedEvent path l t2)\<lparr>coords := cs\<rparr>]))"
proof (intro impI, elim conjE)
  assume was: "map_of prev1 l = Some True" and u: "position_start_line u = l" "\<not> isChecked u"
    and wasnt: "map_of prev2 l \<noteq> Some True" and c: "position_start_line c = l" "isChecked c"
    and t1: "t1 \<noteq> 0"
    and s1: "s1 = snd (handleTask env1 t1 q1 path prev1 u (cur1, s))"
    and s2: "s2 = snd (handleTask env2 t2 q2 path prev2 c (cur2, s1))"
  from was u s1 have s1': "s1 = s\<lparr>undoProtection := AList.update (taskKey path l) t1 (undoProtection s)\<rparr>"
    by (simp add: handleTask_def Let_def)
  then have led: "map_of (undoProtection s1) (taskKey path l) = Some t1"
    and q1: "taskEventQueue s1 = taskEventQueue s"
    and st: "settings s1 = settings s"
    by (simp_all add: update_conv')
  from led t1 st have prot: "undoProtected t2 (taskKey path l) s1 = (t2 - t1 < undoWindowMs (settings s))"
    by (simp add: undoProtected_def)
  from wasnt have nb: "\<not> (case map_of prev2 l of None \<Rightarrow> False | Some b \<Rightarrow> b)"
    by (cases "map_of prev2 l") auto
  have A: "taskEventQueue s2 = taskEventQueue s" if "t2 - t1 < undoWindowMs (settings s)"
    using that s2 c nb prot by (simp add: handleTask_def Let_def q1)
  have B: "\<exists>cs. taskEventQueue s2 = taskEventQueue s @ [(checkedEvent path l t2)\<lparr>coords := cs\<rparr>]"
    if "undoWindowMs (settings s) < t2 - t1"
  proof -
    from that prot have np: "\<not> undoProtected t2 (taskKey path l) s1" by simp
    with s2 c nb have "s2 = queueTaskEvent env2 (q2 l) (checkedEvent path l t2)
                               (cleanupUndoProtection t2 s1)"
      by (simp add: handleTask_def Let_def)
    with queueTaskEvent_queue [of env2 "q2 l" "checkedEvent path l t2" "cleanupUndoProtection t2 s1"]
    show ?thesis by (simp add: cleanupUndoProtection_keeps q1)
  qed
  from led q1 A B show "map_of (undoProtection s1) (taskKey path l) = Some t1
   \<and> taskEventQueue s1 = taskEventQueue s
   \<and> (t2 - t1 < undoWindowMs (settings s) \<longrightarrow> taskEventQueue s2 = taskEventQueue s)
   \<and> (undoWindowMs (settings s) < t2 - t1 \<longrightarrow>
        (\<exists>cs. taskEventQueue s2 = taskEventQueue s @ [(checkedEvent path l t2)\<lparr>coords := cs\<rparr>]))"
    by blast
qed

theorem recheck_inside_undo_window_is_suppressed_witness:
  "map_of [(3::nat, True)] 3 = Some True \<and> position_start_line (uncheckedItem 3) = 3
   \<and> \<not> isChecked (uncheckedItem 3)
   \<and> map_of [(3::nat, False)] 3 \<noteq> Some True \<and> position_start_line (checkedItem 3) = 3
   \<and> isChecked (checkedItem 3) \<and> (1000::int) \<noteq> 0
   \<and> 1400 - 1000 < undoWindowMs (settings (initial DEFAULT_SETTINGS))
   \<and> taskEventQueue
        (snd (handleTask quietEnv 1400 (\<lambda>_. 1400) ''todo.md'' [(3, False)] (checkedItem 3)
           ([], snd (handleTask quietEnv 1000 (\<lambda>_. 1000) ''todo.md'' [(3, True)] (uncheckedItem 3)
                        ([], initial DEFAULT_SETTINGS))))) = []
   \<and> undoWindowMs (settings (initial DEFAULT_SETTINGS)) < 2500 - 1000
   \<and> (\<exists>cs. taskEventQueue
        (snd (handleTask quietEnv 2500 (\<lambda>_. 2500) ''todo.md'' [(3, False)] (checkedItem 3)
           ([], snd (handleTask quietEnv 1000 (\<lambda>_. 1000) ''todo.md'' [(3, True)] (uncheckedItem 3)
                        ([], initial DEFAULT_SETTINGS))))) = [(checkEvent 3 2500)\<lparr>coords := cs\<rparr>])"
proof -
  have pre: "map_of [(3::nat, True)] 3 = Some True" "position_start_line (uncheckedItem 3) = 3"
      "\<not> isChecked (uncheckedItem 3)" "map_of [(3::nat, False)] 3 \<noteq> Some True"
      "position_start_line (checkedItem 3) = 3" "isChecked (checkedItem 3)" "(1000::int) \<noteq> 0"
    by (simp_all add: item_facts)
  have w: "1400 - 1000 < undoWindowMs (settings (initial DEFAULT_SETTINGS))"
      "undoWindowMs (settings (initial DEFAULT_SETTINGS)) < 2500 - 1000"
    and e: "taskEventQueue (initial DEFAULT_SETTINGS) = []"
    by (simp_all add: initial_def DEFAULT_SETTINGS_def)
  note T1 = recheck_inside_undo_window_is_suppressed
      [where ?prev1.0 = "[(3, True)]" and l = 3 and u = "uncheckedItem 3"
         and ?prev2.0 = "[(3, False)]" and c = "checkedItem 3" and ?t1.0 = 1000
         and s = "initial DEFAULT_SETTINGS" and ?env1.0 = quietEnv and ?q1.0 = "\<lambda>_. 1000"
         and path = "''todo.md''" and ?cur1.0 = "[]" and ?cur2.0 = "[]"
         and ?env2.0 = quietEnv and ?t2.0 = 1400 and ?q2.0 = "\<lambda>_. 1400"
         and ?s1.0 = "snd (handleTask quietEnv 1000 (\<lambda>_. 1000) ''todo.md'' [(3, True)]
                             (uncheckedItem 3) ([], initial DEFAULT_SETTINGS))"
         and ?s2.0 = "snd (handleTask quietEnv 1400 (\<lambda>_. 1400) ''todo.md'' [(3, False)] (checkedItem 3)
           ([], snd (handleTask quietEnv 1000 (\<lambda>_. 1000) ''todo.md'' [(3, True)] (uncheckedItem 3)
                        ([], initial DEFAULT_SETTINGS))))"]
  note T2 = recheck_inside_undo_window_is_suppressed
      [where ?prev1.0 = "[(3, True)]" and l = 3 and u = "uncheckedItem 3"
         and ?prev2.0 = "[(3, False)]" and c = "checkedItem 3" and ?t1.0 = 1000
         and s = "initial DEFAULT_SETTINGS" and ?env1.0 = quietEnv and ?q1.0 = "\<lambda>_. 1000"
         and path = "''todo.md''" and ?cur1.0 = "[]" and ?cur2.0 = "[]"
         and ?env2.0 = quietEnv and ?t2.0 = 2500 and ?q2.0 = "\<lambda>_. 2500"
         and ?s1.0 = "snd (handleTask quietEnv 1000 (\<lambda>_. 1000) ''todo.md'' [(3, True)]
                             (uncheckedItem 3) ([], initial DEFAULT_SETTINGS))"
         and ?s2.0 = "snd (handleTask quietEnv 2500 (\<lambda>_. 2500) ''todo.md'' [(3, False)] (checkedItem 3)
           ([], snd (handleTask quietEnv 1000 (\<lambda>_. 1000) ''todo.md'' [(3, True)] (uncheckedItem 3)
                        ([], initial DEFAULT_SETTINGS))))"]
  from T1 pre w(1) have a: "taskEventQueue
        (snd (handleTask quietEnv 1400 (\<lambda>_. 1400) ''todo.md'' [(3, False)] (checkedItem 3)
           ([], snd (handleTask quietEnv 1000 (\<lambda>_. 1000) ''todo.md'' [(3, True)] (uncheckedItem 3)
                        ([], initial DEFAULT_SETTINGS))))) = []"
    unfolding e by blast
  from T2 pre w(2) have b: "\<exists>cs. taskEventQueue
        (snd (handleTask quietEnv 2500 (\<lambda>_. 2500) ''todo.md'' [(3, False)] (checkedItem 3)
           ([], snd (handleTask quietEnv 1000 (\<lambda>_. 1000) ''todo.md'' [(3, True)] (uncheckedItem 3)
                        ([], initial DEFAULT_SETTINGS))))) = [(checkEvent 3 2500)\<lparr>coords := cs\<rparr>]"
    unfolding e checkEvent_def append_Nil by blast
  from pre w a b show ?thesis by blast
qed

section \<open>The merge timer\<close>

lemma timerInv_cases:
  "timerInv s \<Longrightarrow>
     window_timers s = [] \<or> (\<exists>h due. window_timers s = [(h, due)] \<and> mergeTimer s = Some h \<and> h \<noteq> 0)"
  by (auto simp: timerInv_def split: list.splits)

lemma timerInv_cong:
  "window_timers s' = window_timers s \<Longrightarrow> mergeTimer s' = mergeTimer s \<Longrightarrow>
     timerInv s' = timerInv s"
  by (auto simp: timerInv_def split: list.splits)

lemma timerInv_length: "timerInv s \<Longrightarrow> length (window_timers s) \<le> 1"
  by (auto dest: timerInv_cases)

lemma queueTaskEvent_timer:
  assumes "timerInv s"
  shows "window_timers (queueTaskEvent env t ev s)
           = [(Suc (window_last_handle s), t + max 0 (mergeWindowMs (settings s)))]"
    and "mergeTimer (queueTaskEvent env t ev s) = Some (Suc (window_last_handle s))"
  using timerInv_cases [OF assms]
  by (auto simp: queueTaskEvent_def Let_def setTimeout_def clearTimeout_def
        split: option.splits prod.splits)

lemma queueTaskEvent_inv: "timerInv s \<Longrightarrow> timerInv (queueTaskEvent env t ev s)"
  by (simp add: timerInv_def queueTaskEvent_timer)

lemma cleanup_inv: "timerInv s \<Longrightarrow> timerInv (cleanupUndoProtection now s)"
  by (simp add: timerInv_cong [of "cleanupUndoProtection now s" s] cleanupUndoProtection_keeps)

lemma handleTask_inv:
  "timerInv (snd acc) \<Longrightarrow> timerInv (snd (handleTask env now qnow path prev t acc))"
proof -
  assume a: "timerInv (snd acc)"
  obtain cur s where acc: "acc = (cur, s)" by (cases acc)
  have u: "timerInv (s\<lparr>undoProtection := x\<rparr>)" for x
    using a acc by (simp add: timerInv_cong [of "s\<lparr>undoProtection := x\<rparr>" s])
  show ?thesis
    using a u acc by (simp add: handleTask_def Let_def queueTaskEvent_inv cleanup_inv)
qed

lemma fold_handleTask_inv:
  "timerInv (snd acc) \<Longrightarrow> timerInv (snd (fold (handleTask env now qnow path prev) tasks acc))"
  by (induction tasks arbitrary: acc) (simp_all add: handleTask_inv)

lemma handleTaskMetadataChange_inv:
  assumes "timerInv s"
  shows "timerInv (handleTaskMetadataChange env now qnow path cache s)"
proof -
  have u: "timerInv s' \<Longrightarrow> timerInv (s'\<lparr>taskStates := x\<rparr>)" for s' x
    by (simp add: timerInv_cong [of "s'\<lparr>taskStates := x\<rparr>" s'])
  have f: "timerInv (snd (fold (handleTask env now qnow path prev) tasks ([], s)))" for prev tasks
    using assms by (simp add: fold_handleTask_inv)
  show ?thesis
    unfolding handleTaskMetadataChange_def Let_def
    using assms u f by (auto split: option.splits prod.splits) (metis snd_conv)
qed

lemma processMergedEvents_window:
  "window_timers (snd (processMergedEvents env now s)) = window_timers s"
  "window_fired (snd (processMergedEvents env now s)) = window_fired s"
  by (auto simp: processMergedEvents_def Let_def triggerFeedback_keeps
        split: prod.splits completion.splits)

lemma fireTimer_inv:
  assumes "timerInv s" and "fireTimer env h now s = Some (c, s')"
  shows "window_timers s' = []"
proof -
  from assms(2) obtain due where m: "map_of (window_timers s) h = Some due"
    and r: "(c, s') = processMergedEvents env now
              (s\<lparr>window_timers := AList.delete h (window_timers s),
                 window_fired := window_fired s @ [now]\<rparr>)"
    by (auto simp: fireTimer_def split: option.splits if_splits)
  from m timerInv_cases [OF assms(1)] have "AList.delete h (window_timers s) = []"
    by (auto split: if_splits)
  with r processMergedEvents_window(1)
         [of env now "s\<lparr>window_timers := AList.delete h (window_timers s),
                         window_fired := window_fired s @ [now]\<rparr>"]
  show ?thesis by (metis TaskRewardPlugin.select_convs(8) TaskRewardPlugin.surjective
        TaskRewardPlugin.update_convs(8,10) snd_conv)
qed

lemma reachable_inv: "reachable s \<Longrightarrow> timerInv s"
proof (induction rule: reachable.induct)
  case (loaded st)
  then show ?case by (simp add: timerInv_def initial_def)
next
  case (saved s st)
  then show ?case by (simp add: timerInv_cong [of "s\<lparr>settings := st\<rparr>" s])
next
  case (changed s env now qnow path cache)
  then show ?case by (simp add: handleTaskMetadataChange_inv)
next
  case (clicked s path l c now)
  have "timerInv (recordTaskCoordinates path l c now s) = timerInv s"
    by (rule timerInv_cong) (simp_all add: recordTaskCoordinates_def)
  with clicked show ?case by simp
next
  case (fired s env h now c s')
  then show ?case by (simp add: timerInv_def fireTimer_inv)
next
  case (testedSingle s env)
  have "timerInv (snd (testSingleCompletion env s)) = timerInv s"
    by (rule timerInv_cong) (simp_all add: testSingleCompletion_def call_driver_def)
  with testedSingle show ?case by simp
next
  case (testedBatch s env)
  have "timerInv (snd (testBatchCompletion env s)) = timerInv s"
    by (rule timerInv_cong) (simp_all add: testBatchCompletion_def call_driver_def)
  with testedBatch show ?case by simp
qed

lemma fold_no_timer_due:
  "\<forall>(h, due) \<in> set ts. t < due \<Longrightarrow>
     fold (\<lambda>(h, due) s'.
             if due \<le> t then
               (case fireTimer env h t s' of None \<Rightarrow> s' | Some (_, s'') \<Rightarrow> s'')
             else s') ts s = s"
  by (induction ts arbitrary: s) auto

lemma runDueTimers_idle:
  "\<forall>(h, due) \<in> set (window_timers s). t < due \<Longrightarrow> runDueTimers env t s = s"
  unfolding runDueTimers_def by (rule fold_no_timer_due)

lemma runDueTimers_single:
  assumes "window_timers s = [(h, due)]" and "due \<le> T"
  shows "runDueTimers env T s =
           snd (processMergedEvents env T
                  (s\<lparr>window_timers := [], window_fired := window_fired s @ [T]\<rparr>))"
  using assms by (simp add: runDueTimers_def fireTimer_def split: prod.splits)

lemma arrivals_burst:
  assumes "timerInv s" and "evs \<noteq> []"
    and "withinWindow (mergeWindowMs (settings s)) (map snd evs)"
    and "\<forall>(h, due) \<in> set (window_timers s). snd (hd evs) < due"
  shows "window_fired (arrivals env evs s) = window_fired s
    \<and> length (taskEventQueue (arrivals env evs s)) = length (taskEventQueue s) + length evs
    \<and> (\<exists>h. window_timers (arrivals env evs s)
               = [(h, last (map snd evs) + max 0 (mergeWindowMs (settings s)))])
    \<and> timerInv (arrivals env evs s)
    \<and> settings (arrivals env evs s) = settings s
    \<and> lastFeedbackTime (arrivals env evs s) = lastFeedbackTime s
    \<and> driver_calls (arrivals env evs s) = driver_calls s"
  using assms
proof (induction evs arbitrary: s)
  case Nil
  then show ?case by simp
next
  case (Cons e rest)
  obtain ev t where e: "e = (ev, t)" by (cases e)
  let ?s1 = "queueTaskEvent env t ev (runDueTimers env t s)"
  from Cons.prems(4) e have idle: "runDueTimers env t s = s"
    by (simp add: runDueTimers_idle)
  have s1: "?s1 = queueTaskEvent env t ev s"
    by (simp add: idle)
  have t1: "window_timers ?s1 = [(Suc (window_last_handle s), t + max 0 (mergeWindowMs (settings s)))]"
    and inv1: "timerInv ?s1"
    and q1: "length (taskEventQueue ?s1) = length (taskEventQueue s) + 1"
    using Cons.prems(1) unfolding s1
    by (simp_all add: queueTaskEvent_timer queueTaskEvent_inv queueTaskEvent_queue_exact)
  have k1: "window_fired ?s1 = window_fired s" "settings ?s1 = settings s"
    "lastFeedbackTime ?s1 = lastFeedbackTime s" "driver_calls ?s1 = driver_calls s"
    unfolding s1 by (simp_all add: queueTaskEvent_keeps)
  show ?case
  proof (cases rest)
    case Nil
    with e t1 inv1 q1 k1 show ?thesis by simp
  next
    case (Cons e' rest')
    obtain ev' t' where e': "e' = (ev', t')" by (cases e')
    from Cons.prems(3) e e' Cons have gap: "t \<le> t'" "t' - t < mergeWindowMs (settings s)"
      and rest_ok: "withinWindow (mergeWindowMs (settings s)) (map snd rest)"
      by simp_all
    from gap have due: "t' < t + max 0 (mergeWindowMs (settings s))"
      by simp
    have IH: "window_fired (arrivals env rest ?s1) = window_fired ?s1
      \<and> length (taskEventQueue (arrivals env rest ?s1)) = length (taskEventQueue ?s1) + length rest
      \<and> (\<exists>h. window_timers (arrivals env rest ?s1)
                 = [(h, last (map snd rest) + max 0 (mergeWindowMs (settings ?s1)))])
      \<and> timerInv (arrivals env rest ?s1)
      \<and> settings (arrivals env rest ?s1) = settings ?s1
      \<and> lastFeedbackTime (arrivals env rest ?s1) = lastFeedbackTime ?s1
      \<and> driver_calls (arrivals env rest ?s1) = driver_calls ?s1"
    proof (rule Cons.IH)
      show "timerInv ?s1" by (rule inv1)
      show "rest \<noteq> []" using Cons by simp
      show "withinWindow (mergeWindowMs (settings ?s1)) (map snd rest)"
        using rest_ok k1 by simp
      show "\<forall>(h, due) \<in> set (window_timers ?s1). snd (hd rest) < due"
        using due Cons e' by (simp add: t1)
    qed
    have l: "last (map snd (e # rest)) = last (map snd rest)"
      using Cons by simp
    have a: "arrivals env (e # rest) s = arrivals env rest ?s1"
      using e by simp
    from IH show ?thesis
      unfolding a l k1 q1 by simp
  qed
qed

lemma getFeedbackProfile_settings:
  "settings s = settings s' \<Longrightarrow> getFeedbackProfile env s n = getFeedbackProfile env s' n"
  by (simp add: getFeedbackProfile_def)

lemma triggerFeedback_calls_cong:
  "settings s = settings s' \<Longrightarrow> driver_calls s = driver_calls s' \<Longrightarrow>
     driver_calls (snd (snd (triggerFeedback env p es s)))
       = driver_calls (snd (snd (triggerFeedback env p es s')))"
  by (auto simp: triggerFeedback_def call_driver_def
        split: option.splits prod.splits completion.splits)

lemma processMergedEvents_calls:
  "\<not> now - lastFeedbackTime s < throttleMs (settings s) \<Longrightarrow> taskEventQueue s \<noteq> [] \<Longrightarrow>
     driver_calls (snd (processMergedEvents env now s)) =
       driver_calls (snd (snd (triggerFeedback env
          (getFeedbackProfile env s (length (taskEventQueue s))) (taskEventQueue s) s)))"
  by (auto simp: processMergedEvents_def Let_def split: prod.splits completion.splits)

lemma processMergedEvents_dropped:
  "now - lastFeedbackTime s < throttleMs (settings s) \<Longrightarrow>
     driver_calls (snd (processMergedEvents env now s)) = driver_calls s
     \<and> taskEventQueue (snd (processMergedEvents env now s)) = []"
  by (simp add: processMergedEvents_def)

lemma burst_then_flush:
  fixes env env' :: host_env
  assumes "window_timers s0 = []" and "taskEventQueue s0 = []" and "evs \<noteq> []"
    and "withinWindow (mergeWindowMs (settings s0)) (map snd evs)"
    and "last (map snd evs) + max 0 (mergeWindowMs (settings s0)) \<le> T"
  defines "sN \<equiv> arrivals env evs s0"
  defines "sF \<equiv> runDueTimers env' T (arrivals env evs s0)"
  shows "window_fired sN = window_fired s0"
    and "length (taskEventQueue sN) = length evs"
    and "length (window_timers sN) = 1"
    and "window_fired sF = window_fired s0 @ [T]"
    and "window_timers sF = []"
    and "\<not> T - lastFeedbackTime s0 < throttleMs (settings s0) \<Longrightarrow>
          driver_calls sF =
            driver_calls (snd (snd (triggerFeedback env'
               (getFeedbackProfile env' s0 (length evs)) (taskEventQueue sN) s0)))"
    and "T - lastFeedbackTime s0 < throttleMs (settings s0) \<Longrightarrow>
          driver_calls sF = driver_calls s0 \<and> taskEventQueue sF = []"
proof -
  have inv0: "timerInv s0"
    using assms(1) by (simp add: timerInv_def)
  have nodue: "\<forall>(h, due) \<in> set (window_timers s0). snd (hd evs) < due"
    using assms(1) by simp
  note B = arrivals_burst [OF inv0 assms(3) assms(4) nodue, of env, folded sN_def]
  from B obtain h where tm: "window_timers sN = [(h, last (map snd evs) + max 0 (mergeWindowMs (settings s0)))]"
    by blast
  from B assms(2) have fired: "window_fired sN = window_fired s0"
    and len: "length (taskEventQueue sN) = length evs"
    and st: "settings sN = settings s0" and lf: "lastFeedbackTime sN = lastFeedbackTime s0"
    and dc: "driver_calls sN = driver_calls s0"
    by simp_all
  let ?sN' = "sN\<lparr>window_timers := [], window_fired := window_fired sN @ [T]\<rparr>"
  have sF: "sF = snd (processMergedEvents env' T ?sN')"
    unfolding sF_def sN_def [symmetric] using tm assms(5) by (rule runDueTimers_single)
  show "window_fired sN = window_fired s0" by (rule fired)
  show "length (taskEventQueue sN) = length evs" by (rule len)
  show "length (window_timers sN) = 1" by (simp add: tm)
  show "window_fired sF = window_fired s0 @ [T]"
    unfolding sF by (simp add: processMergedEvents_window fired)
  show "window_timers sF = []"
    unfolding sF by (simp add: processMergedEvents_window)
  have ne: "taskEventQueue ?sN' \<noteq> []"
    using len assms(3) by auto
  show "driver_calls sF =
            driver_calls (snd (snd (triggerFeedback env'
               (getFeedbackProfile env' s0 (length evs)) (taskEventQueue sN) s0)))"
    if "\<not> T - lastFeedbackTime s0 < throttleMs (settings s0)"
  proof -
    from that st lf have nt: "\<not> T - lastFeedbackTime ?sN' < throttleMs (settings ?sN')"
      by simp
    have p: "getFeedbackProfile env' ?sN' (length (taskEventQueue ?sN'))
               = getFeedbackProfile env' s0 (length evs)"
      using len by (simp add: getFeedbackProfile_settings [of ?sN' s0] st)
    have "driver_calls sF = driver_calls (snd (snd (triggerFeedback env'
            (getFeedbackProfile env' s0 (length evs)) (taskEventQueue sN) ?sN')))"
      unfolding sF processMergedEvents_calls [OF nt ne] p by simp
    also have "\<dots> = driver_calls (snd (snd (triggerFeedback env'
            (getFeedbackProfile env' s0 (length evs)) (taskEventQueue sN) s0)))"
      by (rule triggerFeedback_calls_cong) (simp_all add: st dc)
    finally show ?thesis .
  qed
  show "driver_calls sF = driver_calls s0 \<and> taskEventQueue sF = []"
    if "T - lastFeedbackTime s0 < throttleMs (settings s0)"
  proof -
    from that st lf have "T - lastFeedbackTime ?sN' < throttleMs (settings ?sN')"
      by simp
    from processMergedEvents_dropped [OF this, of env'] show ?thesis
      unfolding sF by (simp add: dc)
  qed
qed

lemma twoChecks_within:
  "twoChecks t t' \<noteq> []" "length (twoChecks t t') = 2" "last (map snd (twoChecks t t')) = t'"
  "withinWindow w (map snd (twoChecks t t')) = (t \<le> t' \<and> t' - t < w)"
  by (simp_all add: twoChecks_def)

lemma recentFlushState_facts:
  "window_timers recentFlushState = []" "taskEventQueue recentFlushState = []"
  "window_fired recentFlushState = []" "driver_calls recentFlushState = []"
  "mergeWindowMs (settings recentFlushState) = 100"
  "throttleMs (settings recentFlushState) = 1000"
  "lastFeedbackTime recentFlushState = 5000"
  by (simp_all add: recentFlushState_def initial_def fastSettings_def DEFAULT_SETTINGS_def)

text \<open>
  C3, as the code has it. In every reachable state at most one timeout is outstanding, and
  queueing a check event leaves exactly one, newly started and due \<open>mergeWindowMs\<close> later.
  So when a series of check events arrives with no timeout outstanding and an empty batch,
  each less than \<open>mergeWindowMs\<close> after the one before: no flush happens during the
  series, the batch then holds as many events as arrived, and exactly one flush happens
  once the last timeout is due. Unless the throttle rejects that flush, its driver calls
  are those of one call of \<^verbatim>\<open>triggerFeedback\<close> with the profile for that count and those
  events; when the throttle rejects it, it calls no driver and drops the batch.
\<close>

theorem one_timer_and_one_flush_per_burst:
  "(reachable s \<longrightarrow> length (window_timers s) \<le> 1)
   \<and> (reachable s \<longrightarrow>
        window_timers (queueTaskEvent env t ev s)
          = [(Suc (window_last_handle s), t + max 0 (mergeWindowMs (settings s)))]
        \<and> mergeTimer (queueTaskEvent env t ev s) = Some (Suc (window_last_handle s)))
   \<and> (window_timers s0 = [] \<and> taskEventQueue s0 = [] \<and> evs \<noteq> []
        \<and> withinWindow (mergeWindowMs (settings s0)) (map snd evs)
        \<and> last (map snd evs) + max 0 (mergeWindowMs (settings s0)) \<le> T \<longrightarrow>
        window_fired (arrivals env evs s0) = window_fired s0
        \<and> length (taskEventQueue (arrivals env evs s0)) = length evs
        \<and> length (window_timers (arrivals env evs s0)) = 1
        \<and> window_fired (runDueTimers env' T (arrivals env evs s0)) = window_fired s0 @ [T]
        \<and> window_timers (runDueTimers env' T (arrivals env evs s0)) = []
        \<and> (\<not> T - lastFeedbackTime s0 < throttleMs (settings s0) \<longrightarrow>
             driver_calls (runDueTimers env' T (arrivals env evs s0)) =
               driver_calls (snd (snd (triggerFeedback env'
                  (getFeedbackProfile env' s0 (length evs))
                  (taskEventQueue (arrivals env evs s0)) s0))))
        \<and> (T - lastFeedbackTime s0 < throttleMs (settings s0) \<longrightarrow>
             driver_calls (runDueTimers env' T (arrivals env evs s0)) = driver_calls s0
             \<and> taskEventQueue (runDueTimers env' T (arrivals env evs s0)) = []))"
proof (intro conjI impI)
  assume "reachable s"
  then show "length (window_timers s) \<le> 1"
    by (intro timerInv_length reachable_inv)
next
  assume "reachable s"
  then have "timerInv s" by (rule reachable_inv)
  then show "window_timers (queueTaskEvent env t ev s)
          = [(Suc (window_last_handle s), t + max 0 (mergeWindowMs (settings s)))]"
    by (rule queueTaskEvent_timer)
next
  assume "reachable s"
  then have "timerInv s" by (rule reachable_inv)
  then show "mergeTimer (queueTaskEvent env t ev s) = Some (Suc (window_last_handle s))"
    by (rule queueTaskEvent_timer)
next
  assume a: "window_timers s0 = [] \<and> taskEventQueue s0 = [] \<and> evs \<noteq> []
        \<and> withinWindow (mergeWindowMs (settings s0)) (map snd evs)
        \<and> last (map snd evs) + max 0 (mergeWindowMs (settings s0)) \<le> T"
  then have a1: "window_timers s0 = []" and a2: "taskEventQueue s0 = []" and a3: "evs \<noteq> []"
    and a4: "withinWindow (mergeWindowMs (settings s0)) (map snd evs)"
    and a5: "last (map snd evs) + max 0 (mergeWindowMs (settings s0)) \<le> T"
    by simp_all
  note B = burst_then_flush [OF a1 a2 a3 a4 a5]
  show "window_fired (arrivals env evs s0) = window_fired s0" by (rule B(1))
  show "length (taskEventQueue (arrivals env evs s0)) = length evs" by (rule B(2))
  show "length (window_timers (arrivals env evs s0)) = 1" by (rule B(3))
  show "window_fired (runDueTimers env' T (arrivals env evs s0)) = window_fired s0 @ [T]"
    by (rule B(4))
  show "window_timers (runDueTimers env' T (arrivals env evs s0)) = []" by (rule B(5))
  show "driver_calls (runDueTimers env' T (arrivals env evs s0)) =
               driver_calls (snd (snd (triggerFeedback env'
                  (getFeedbackProfile env' s0 (length evs))
                  (taskEventQueue (arrivals env evs s0)) s0)))"
    if "\<not> T - lastFeedbackTime s0 < throttleMs (settings s0)"
    using that by (rule B(6))
  show "driver_calls (runDueTimers env' T (arrivals env evs s0)) = driver_calls s0"
    if "T - lastFeedbackTime s0 < throttleMs (settings s0)"
    using B(7) [OF that] by simp
  show "taskEventQueue (runDueTimers env' T (arrivals env evs s0)) = []"
    if "T - lastFeedbackTime s0 < throttleMs (settings s0)"
    using B(7) [OF that] by simp
qed

theorem one_timer_and_one_flush_per_burst_witness:
  "reachable (initial DEFAULT_SETTINGS)
   \<and> length (window_timers (initial DEFAULT_SETTINGS)) \<le> 1
   \<and> window_timers (queueTaskEvent quietEnv 1000 (checkEvent 3 1000) (initial DEFAULT_SETTINGS))
        = [(1, 1300)]
   \<and> window_timers (initial DEFAULT_SETTINGS) = []
   \<and> taskEventQueue (initial DEFAULT_SETTINGS) = []
   \<and> twoChecks 1000 1100 \<noteq> []
   \<and> withinWindow (mergeWindowMs (settings (initial DEFAULT_SETTINGS)))
        (map snd (twoChecks 1000 1100))
   \<and> last (map snd (twoChecks 1000 1100))
        + max 0 (mergeWindowMs (settings (initial DEFAULT_SETTINGS))) \<le> 1400
   \<and> \<not> 1400 - lastFeedbackTime (initial DEFAULT_SETTINGS)
          < throttleMs (settings (initial DEFAULT_SETTINGS))
   \<and> window_fired (arrivals quietEnv (twoChecks 1000 1100) (initial DEFAULT_SETTINGS)) = []
   \<and> length (taskEventQueue (arrivals quietEnv (twoChecks 1000 1100) (initial DEFAULT_SETTINGS))) = 2
   \<and> window_fired (runDueTimers quietEnv 1400
         (arrivals quietEnv (twoChecks 1000 1100) (initial DEFAULT_SETTINGS))) = [1400]
   \<and> driver_calls (runDueTimers quietEnv 1400
         (arrivals quietEnv (twoChecks 1000 1100) (initial DEFAULT_SETTINGS))) =
       driver_calls (snd (snd (triggerFeedback quietEnv
          (getFeedbackProfile quietEnv (initial DEFAULT_SETTINGS) 2)
          (taskEventQueue (arrivals quietEnv (twoChecks 1000 1100) (initial DEFAULT_SETTINGS)))
          (initial DEFAULT_SETTINGS))))"
proof -
  have r: "reachable (initial DEFAULT_SETTINGS)"
    by (rule reachable.loaded)
  have i: "window_timers (initial DEFAULT_SETTINGS) = []"
      "taskEventQueue (initial DEFAULT_SETTINGS) = []"
      "window_fired (initial DEFAULT_SETTINGS) = []"
      "window_last_handle (initial DEFAULT_SETTINGS) = 0"
      "mergeWindowMs (settings (initial DEFAULT_SETTINGS)) = 300"
      "throttleMs (settings (initial DEFAULT_SETTINGS)) = 250"
      "lastFeedbackTime (initial DEFAULT_SETTINGS) = 0"
    by (simp_all add: initial_def DEFAULT_SETTINGS_def)
  have h: "twoChecks 1000 1100 \<noteq> []"
      "withinWindow (mergeWindowMs (settings (initial DEFAULT_SETTINGS)))
         (map snd (twoChecks 1000 1100))"
      "last (map snd (twoChecks 1000 1100))
         + max 0 (mergeWindowMs (settings (initial DEFAULT_SETTINGS))) \<le> 1400"
      "\<not> 1400 - lastFeedbackTime (initial DEFAULT_SETTINGS)
          < throttleMs (settings (initial DEFAULT_SETTINGS))"
    by (simp_all add: twoChecks_within i)
  note T = one_timer_and_one_flush_per_burst
             [where s = "initial DEFAULT_SETTINGS" and env = quietEnv and t = 1000
                and ev = "checkEvent 3 1000" and ?s0.0 = "initial DEFAULT_SETTINGS"
                and evs = "twoChecks 1000 1100" and T = 1400 and env' = quietEnv]
  from T r have a: "length (window_timers (initial DEFAULT_SETTINGS)) \<le> 1"
    and b: "window_timers (queueTaskEvent quietEnv 1000 (checkEvent 3 1000)
                             (initial DEFAULT_SETTINGS))
              = [(Suc (window_last_handle (initial DEFAULT_SETTINGS)),
                  1000 + max 0 (mergeWindowMs (settings (initial DEFAULT_SETTINGS))))]"
    by blast+
  from b have b': "window_timers (queueTaskEvent quietEnv 1000 (checkEvent 3 1000)
                             (initial DEFAULT_SETTINGS)) = [(1, 1300)]"
    by (simp add: i)
  from T i(1,2) h have c:
    "window_fired (arrivals quietEnv (twoChecks 1000 1100) (initial DEFAULT_SETTINGS))
       = window_fired (initial DEFAULT_SETTINGS)"
    "length (taskEventQueue (arrivals quietEnv (twoChecks 1000 1100) (initial DEFAULT_SETTINGS)))
       = length (twoChecks 1000 1100)"
    "window_fired (runDueTimers quietEnv 1400
         (arrivals quietEnv (twoChecks 1000 1100) (initial DEFAULT_SETTINGS)))
       = window_fired (initial DEFAULT_SETTINGS) @ [1400]"
    "driver_calls (runDueTimers quietEnv 1400
         (arrivals quietEnv (twoChecks 1000 1100) (initial DEFAULT_SETTINGS))) =
       driver_calls (snd (snd (triggerFeedback quietEnv
          (getFeedbackProfile quietEnv (initial DEFAULT_SETTINGS) (length (twoChecks 1000 1100)))
          (taskEventQueue (arrivals quietEnv (twoChecks 1000 1100) (initial DEFAULT_SETTINGS)))
          (initial DEFAULT_SETTINGS))))"
    by blast+
  from r a b' i(1,2) h c show ?thesis
    by (simp add: i twoChecks_within)
qed

text \<open>
  C3 as stated fails: with a merge window of 100 and a throttle of 1000, two checks at 5010 and 5020 after a
  dispatch at 5000 are flushed once, at 5120, and that flush dispatches nothing.
\<close>

theorem throttled_burst_dispatches_nothing:
  "withinWindow (mergeWindowMs (settings recentFlushState)) (map snd (twoChecks 5010 5020))
   \<and> length (taskEventQueue (arrivals quietEnv (twoChecks 5010 5020) recentFlushState)) = 2
   \<and> window_fired (runDueTimers quietEnv 5120
         (arrivals quietEnv (twoChecks 5010 5020) recentFlushState)) = [5120]
   \<and> driver_calls (runDueTimers quietEnv 5120
         (arrivals quietEnv (twoChecks 5010 5020) recentFlushState)) = []
   \<and> taskEventQueue (runDueTimers quietEnv 5120
         (arrivals quietEnv (twoChecks 5010 5020) recentFlushState)) = []"
proof -
  have w: "withinWindow (mergeWindowMs (settings recentFlushState)) (map snd (twoChecks 5010 5020))"
    and d: "last (map snd (twoChecks 5010 5020))
              + max 0 (mergeWindowMs (settings recentFlushState)) \<le> 5120"
    and th: "5120 - lastFeedbackTime recentFlushState < throttleMs (settings recentFlushState)"
    by (simp_all add: twoChecks_within recentFlushState_facts)
  note B = burst_then_flush [OF recentFlushState_facts(1,2) twoChecks_within(1) w d]
  have "length (taskEventQueue (arrivals quietEnv (twoChecks 5010 5020) recentFlushState)) = 2"
    using B(2) [of quietEnv] by (simp add: twoChecks_within)
  moreover have "window_fired (runDueTimers quietEnv 5120
         (arrivals quietEnv (twoChecks 5010 5020) recentFlushState)) = [5120]"
    using B(4) [of quietEnv quietEnv] by (simp add: recentFlushState_facts)
  moreover have "driver_calls (runDueTimers quietEnv 5120
         (arrivals quietEnv (twoChecks 5010 5020) recentFlushState)) = []
     \<and> taskEventQueue (runDueTimers quietEnv 5120
         (arrivals quietEnv (twoChecks 5010 5020) recentFlushState)) = []"
    using B(7) [OF th, of quietEnv quietEnv] by (simp add: recentFlushState_facts)
  ultimately show ?thesis using w by blast
qed

end
